theory Spec2Isabelle
  imports Complex_Main "HOL-Library.Product_Lexorder"
begin

section \<open>Cells, timestamps and the table operations of pandas and polars\<close>

text \<open>
  A nullable cell (NaN, NaT, None, a polars null) is an \<open>option\<close>; \<open>None\<close> is the null.
  Float columns are exact rationals: the model follows which columns are added, divided
  and rounded, not the rounding error of IEEE doubles.

  A calendar date is the triple (year, month, day); a timestamp is a date and the
  nanoseconds elapsed since midnight. Both are ordered lexicographically, which is the
  chronological order pandas and polars compare timestamps by.
\<close>

type_synonym date = "int \<times> int \<times> int"
type_synonym timestamp = "date \<times> int"

definition is_leap :: "int \<Rightarrow> bool" where
  "is_leap y = (y mod 4 = 0 \<and> (y mod 100 \<noteq> 0 \<or> y mod 400 = 0))"

definition days_in_month :: "int \<Rightarrow> int \<Rightarrow> int" where
  "days_in_month y m =
     (if m = 2 then (if is_leap y then 29 else 28)
      else if m = 4 \<or> m = 6 \<or> m = 9 \<or> m = 11 then 30 else 31)"

definition valid_date :: "date \<Rightarrow> bool" where
  "valid_date dt = (case dt of (y, m, d) \<Rightarrow>
     1 \<le> y \<and> y \<le> 9999 \<and> 1 \<le> m \<and> m \<le> 12 \<and> 1 \<le> d \<and> d \<le> days_in_month y m)"

text \<open>Days since 1970-01-01 of a calendar date (proleptic Gregorian calendar).\<close>

definition days_from_civil :: "date \<Rightarrow> int" where
  "days_from_civil dt = (case dt of (y, m, d) \<Rightarrow>
     (let y' = (if m \<le> 2 then y - 1 else y);
          era = y' div 400;
          yoe = y' - era * 400;
          doy = (153 * (if m > 2 then m - 3 else m + 9) + 2) div 5 + d - 1;
          doe = yoe * 365 + yoe div 4 - yoe div 100 + doy
      in era * 146097 + doe - 719468))"

definition ns_per_day :: int where
  "ns_per_day = 86400000000000"

text \<open>Nanoseconds since the epoch, the value pandas stores for a \<open>datetime64[ns]\<close>.\<close>

definition epoch_ns :: "timestamp \<Rightarrow> int" where
  "epoch_ns ts = days_from_civil (fst ts) * ns_per_day + snd ts"

text \<open>\<open>(a - b).dt.days\<close>: the whole days of a Timedelta, rounded towards minus infinity;
  NaT when either operand is NaT.\<close>

definition timedelta_days :: "timestamp option \<Rightarrow> timestamp option \<Rightarrow> int option" where
  "timedelta_days a b =
     (case (a, b) of
        (Some x, Some y) \<Rightarrow> Some ((epoch_ns x - epoch_ns y) div ns_per_day)
      | _ \<Rightarrow> None)"

text \<open>\<open>.dt.to_period('M')\<close>: the ordinal of a monthly period (months since 1970-01), and
  \<open>.dt.to_timestamp()\<close> back to the first instant of that month.\<close>

definition to_period_M :: "timestamp \<Rightarrow> int" where
  "to_period_M ts = (case ts of ((y, m, d), t) \<Rightarrow> (y - 1970) * 12 + (m - 1))"

definition period_to_timestamp :: "int \<Rightarrow> timestamp" where
  "period_to_timestamp p = ((1970 + p div 12, p mod 12 + 1, 1), 0)"

text \<open>\<open>Series.round(2)\<close>: numpy scales by 100, rounds half to even, and scales back.\<close>

definition rint :: "rat \<Rightarrow> int" where
  "rint x =
     (let f = \<lfloor>x\<rfloor>; r = x - of_int f
      in if r < 1 / 2 then f else if 1 / 2 < r then f + 1
         else if even f then f else f + 1)"

definition round2 :: "rat \<Rightarrow> rat" where
  "round2 x = of_int (rint (x * 100)) / 100"

text \<open>Values of a column that are not null, in row order.\<close>

definition drop_nulls :: "'a option list \<Rightarrow> 'a list" where
  "drop_nulls xs = concat (map (\<lambda>x. case x of None \<Rightarrow> [] | Some v \<Rightarrow> [v]) xs)"

text \<open>polars aggregations ignore nulls: \<open>sum\<close> of no values is 0, while \<open>min\<close>,
  \<open>max\<close> and \<open>mean\<close> of no values are null; \<open>count\<close> counts the non-null values and
  \<open>first\<close> takes the first row's cell, null or not.\<close>

definition agg_sum :: "rat option list \<Rightarrow> rat" where
  "agg_sum xs = sum_list (drop_nulls xs)"

definition agg_count :: "'a option list \<Rightarrow> int" where
  "agg_count xs = int (length (drop_nulls xs))"

definition agg_min :: "'a::linorder option list \<Rightarrow> 'a option" where
  "agg_min xs = (case drop_nulls xs of [] \<Rightarrow> None | v # vs \<Rightarrow> Some (fold min vs v))"

definition agg_max :: "'a::linorder option list \<Rightarrow> 'a option" where
  "agg_max xs = (case drop_nulls xs of [] \<Rightarrow> None | v # vs \<Rightarrow> Some (fold max vs v))"

definition agg_mean :: "rat option list \<Rightarrow> rat option" where
  "agg_mean xs =
     (case drop_nulls xs of [] \<Rightarrow> None
      | v # vs \<Rightarrow> Some (sum_list (v # vs) / of_nat (length (v # vs))))"

definition agg_first :: "'a option list \<Rightarrow> 'a option" where
  "agg_first xs = (case xs of [] \<Rightarrow> None | x # _ \<Rightarrow> x)"

text \<open>\<open>unique()\<close>: the distinct values in order of first appearance.\<close>

fun unique :: "'a list \<Rightarrow> 'a list" where
  "unique [] = []"
| "unique (x # xs) = x # unique (filter (\<lambda>y. y \<noteq> x) xs)"

text \<open>\<open>group_by(key)\<close>: one group per distinct key, holding the rows of that key in
  their original order. polars promises no order between the groups, and the model lists
  them by first appearance; every use below either left-joins the groups onto another
  table by their key or sorts them by it, which gives the same table for every order of
  the groups (\<open>left_merge_group_order\<close>, \<open>sort_key_group_order\<close>).\<close>

definition group_by :: "('r \<Rightarrow> 'k) \<Rightarrow> 'r list \<Rightarrow> ('k \<times> 'r list) list" where
  "group_by key rows =
     map (\<lambda>k. (k, filter (\<lambda>r. key r = k) rows)) (unique (map key rows))"

text \<open>\<open>left.merge(right, on=key, how='left')\<close>: the rows of \<open>left\<close> in order, each paired
  with every matching row of \<open>right\<close> in order, or once with nulls when none matches.\<close>

definition left_merge :: "('l \<Rightarrow> 'k) \<Rightarrow> ('r \<Rightarrow> 'k) \<Rightarrow> 'l list \<Rightarrow> 'r list \<Rightarrow> ('l \<times> 'r option) list" where
  "left_merge kl kr ls rs =
     concat (map (\<lambda>l. case filter (\<lambda>r. kr r = kl l) rs of
                         [] \<Rightarrow> [(l, None)]
                       | ms \<Rightarrow> map (\<lambda>r. (l, Some r)) ms) ls)"

text \<open>\<open>how='inner'\<close>: the same without the unmatched rows.\<close>

definition inner_merge :: "('l \<Rightarrow> 'k) \<Rightarrow> ('r \<Rightarrow> 'k) \<Rightarrow> 'l list \<Rightarrow> 'r list \<Rightarrow> ('l \<times> 'r) list" where
  "inner_merge kl kr ls rs =
     concat (map (\<lambda>l. map (\<lambda>r. (l, r)) (filter (\<lambda>r. kr r = kl l) rs)) ls)"

text \<open>\<open>dict(zip(keys, values))\<close>: a later pair replaces an earlier one with the same key.\<close>

definition dict_zip :: "('k \<times> 'v) list \<Rightarrow> 'k \<Rightarrow> 'v option" where
  "dict_zip kvs = map_of (rev kvs)"

text \<open>\<open>df.index + 1\<close> after \<open>reset_index\<close>: the surrogate keys 1, 2, ..., n.\<close>

definition with_key :: "'r list \<Rightarrow> (int \<times> 'r) list" where
  "with_key rows = zip (map (\<lambda>i. int i + 1) [0..<length rows]) rows"

section \<open>The extracts\<close>

text \<open>
  The tables the extractors return, restricted to the columns the transform reads.
  The extractors raise on a null \<open>order_id\<close>, \<open>customer_id\<close>, \<open>customer_unique_id\<close> or
  \<open>product_id\<close>, so these columns are not nullable here.
\<close>

record order_row =
  o_order_id :: string
  o_customer_id :: string
  o_order_status :: "string option"
  o_order_purchase_timestamp :: "timestamp option"
  o_order_delivered_customer_date :: "timestamp option"
  o_order_estimated_delivery_date :: "timestamp option"

record item_row =
  i_order_id :: string
  i_order_item_id :: "int option"
  i_product_id :: string
  i_seller_id :: "string option"
  i_price :: "rat option"
  i_freight_value :: "rat option"

record customer_row =
  c_customer_id :: string
  c_customer_unique_id :: string
  c_customer_city :: "string option"
  c_customer_state :: "string option"

text \<open>\<open>OrderItemsExtractor.extract\<close> adds \<open>item_total = price + freight_value\<close>, null when
  either is.\<close>

definition item_total :: "item_row \<Rightarrow> rat option" where
  "item_total i =
     (case (i_price i, i_freight_value i) of (Some p, Some f) \<Rightarrow> Some (p + f) | _ \<Rightarrow> None)"

section \<open>Configuration\<close>

text \<open>\<open>config/business_rules.yaml\<close>: the keys the builders read.\<close>

record business_rules =
  vip_customer_min_value :: rat
  vip_customer_min_orders :: int
  returning_customer_max_orders :: int
  regions :: "(string \<times> string list) list"
  estimated_lifespan_days :: rat
  start_date :: date
  end_date :: date

section \<open>Customer dimension\<close>

text \<open>The columns \<open>CustomerDimensionBuilder.build\<close> computes per customer that has orders
  (the frame \<open>customer_metrics\<close>).\<close>

record customer_metrics =
  cm_customer_id :: string
  cm_total_orders :: int
  cm_total_spent :: rat
  cm_avg_order_value :: "rat option"
  cm_first_order_date :: "timestamp option"
  cm_last_order_date :: "timestamp option"
  cm_delivered_orders :: int
  cm_days_as_customer :: "int option"
  cm_purchase_frequency_annual :: "rat option"
  cm_lifetime_value :: "rat option"

text \<open>A row of the customer dimension.\<close>

record dim_customer =
  dc_customer_key :: int
  dc_customer_id :: string
  dc_customer_unique_id :: string
  dc_customer_city :: "string option"
  dc_customer_state :: "string option"
  dc_customer_region :: string
  dc_customer_segment :: string
  dc_first_order_date :: "timestamp option"
  dc_last_order_date :: "timestamp option"
  dc_total_orders :: int
  dc_delivered_orders :: "int option"
  dc_total_spent :: rat
  dc_avg_order_value :: "rat option"
  dc_lifetime_value :: "rat option"
  dc_days_as_customer :: "int option"
  dc_purchase_frequency_annual :: "rat option"
  dc_created_at :: timestamp
  dc_updated_at :: timestamp

text \<open>Step 4: order-level revenue, \<open>group_by('order_id').agg(item_total.sum())\<close>.\<close>

definition order_revenue :: "item_row list \<Rightarrow> (string \<times> rat) list" where
  "order_revenue items =
     map (\<lambda>(k, g). (k, agg_sum (map item_total g))) (group_by i_order_id items)"

text \<open>Step 5: left join of the orders with the revenue, \<open>fillna(0)\<close> on \<open>order_total\<close>.\<close>

definition orders_with_total :: "order_row list \<Rightarrow> item_row list \<Rightarrow> (order_row \<times> rat) list" where
  "orders_with_total orders items =
     map (\<lambda>(od, rv). (od, case rv of None \<Rightarrow> 0 | Some (k, amt) \<Rightarrow> amt))
         (left_merge o_order_id fst orders (order_revenue items))"

text \<open>Step 7: \<open>(last - first).dt.days\<close>, then \<open>max(x, 1)\<close>; Python's \<open>max(nan, 1)\<close> is
  \<open>nan\<close>.\<close>

definition days_as_customer :: "timestamp option \<Rightarrow> timestamp option \<Rightarrow> int option" where
  "days_as_customer first_order last_order =
     map_option (\<lambda>x. max x 1) (timedelta_days last_order first_order)"

text \<open>Step 8: the annualised purchase frequency and the lifetime value.\<close>

definition purchase_frequency_annual :: "int \<Rightarrow> int option \<Rightarrow> rat option" where
  "purchase_frequency_annual total_orders days =
     map_option (\<lambda>d. of_int total_orders / of_int d * 365) days"

definition lifetime_value :: "rat \<Rightarrow> rat option \<Rightarrow> rat option \<Rightarrow> rat option" where
  "lifetime_value estimated_lifespan avg_order_value frequency =
     (case (avg_order_value, frequency) of
        (Some a, Some f) \<Rightarrow> Some (round2 (a * f * (estimated_lifespan / 365)))
      | _ \<Rightarrow> None)"

text \<open>Steps 6 to 8 for one group of the \<open>group_by('customer_id')\<close>.\<close>

definition metrics_of_group :: "rat \<Rightarrow> string \<times> (order_row \<times> rat) list \<Rightarrow> customer_metrics" where
  "metrics_of_group estimated_lifespan kg = (case kg of (cid, g) \<Rightarrow>
     (let total_orders = agg_count (map (\<lambda>(od, amt). Some (o_order_id od)) g);
          avg = agg_mean (map (\<lambda>(od, amt). Some amt) g);
          first_order = agg_min (map (\<lambda>(od, amt). o_order_purchase_timestamp od) g);
          last_order = agg_max (map (\<lambda>(od, amt). o_order_purchase_timestamp od) g);
          days = days_as_customer first_order last_order;
          freq = purchase_frequency_annual total_orders days
      in \<lparr> cm_customer_id = cid,
           cm_total_orders = total_orders,
           cm_total_spent = agg_sum (map (\<lambda>(od, amt). Some amt) g),
           cm_avg_order_value = avg,
           cm_first_order_date = first_order,
           cm_last_order_date = last_order,
           cm_delivered_orders =
             int (length (filter (\<lambda>(od, amt). o_order_status od = Some ''delivered'') g)),
           cm_days_as_customer = days,
           cm_purchase_frequency_annual = freq,
           cm_lifetime_value = lifetime_value estimated_lifespan avg freq \<rparr>))"

definition customer_metrics_of :: "rat \<Rightarrow> order_row list \<Rightarrow> item_row list \<Rightarrow> customer_metrics list" where
  "customer_metrics_of estimated_lifespan orders items =
     map (metrics_of_group estimated_lifespan)
         (group_by (\<lambda>(od, amt). o_customer_id od) (orders_with_total orders items))"

text \<open>\<open>_get_region\<close>: the first region whose state list holds the state.\<close>

fun region_of :: "(string \<times> string list) list \<Rightarrow> string \<Rightarrow> string" where
  "region_of [] state = ''Other''"
| "region_of ((region, states) # rest) state =
     (if state \<in> set states then region else region_of rest state)"

definition get_region :: "business_rules \<Rightarrow> string option \<Rightarrow> string" where
  "get_region cfg state =
     (case state of None \<Rightarrow> ''Unknown'' | Some s \<Rightarrow> region_of (regions cfg) s)"

text \<open>\<open>_segment_customer\<close>, on the two cells of the row it reads. A null
  \<open>lifetime_value\<close> counts as 0.\<close>

definition segment_customer :: "business_rules \<Rightarrow> int \<Rightarrow> rat option \<Rightarrow> string" where
  "segment_customer cfg total_orders lifetime_value_cell =
     (let lifetime_value = (case lifetime_value_cell of Some v \<Rightarrow> v | None \<Rightarrow> 0);
          vip_threshold = vip_customer_min_value cfg;
          vip_orders = vip_customer_min_orders cfg;
          returning_max = returning_customer_max_orders cfg
      in if total_orders = 0 then ''Inactive''
         else if total_orders \<ge> vip_orders \<or> lifetime_value \<ge> vip_threshold then ''VIP''
         else if total_orders \<le> 1 then ''New''
         else if total_orders \<le> returning_max then ''Returning''
         else ''Loyal'')"

text \<open>Steps 9 to 13 for one row of the left join of the customers with the metrics:
  a customer without metrics gets \<open>total_orders\<close>, \<open>total_spent\<close> and \<open>lifetime_value\<close>
  set to 0 and keeps the nulls of the join in the other columns.\<close>

definition dim_customer_row ::
  "business_rules \<Rightarrow> timestamp \<Rightarrow> timestamp \<Rightarrow> int \<times> customer_row \<times> customer_metrics option \<Rightarrow> dim_customer" where
  "dim_customer_row cfg now1 now2 kcm = (case kcm of (key, c, metrics) \<Rightarrow>
     (let total_orders = (case metrics of None \<Rightarrow> 0 | Some m \<Rightarrow> cm_total_orders m);
          total_spent = (case metrics of None \<Rightarrow> 0 | Some m \<Rightarrow> cm_total_spent m);
          ltv = (case metrics of None \<Rightarrow> Some 0 | Some m \<Rightarrow> cm_lifetime_value m)
      in \<lparr> dc_customer_key = key,
           dc_customer_id = c_customer_id c,
           dc_customer_unique_id = c_customer_unique_id c,
           dc_customer_city = c_customer_city c,
           dc_customer_state = c_customer_state c,
           dc_customer_region = get_region cfg (c_customer_state c),
           dc_customer_segment = segment_customer cfg total_orders ltv,
           dc_first_order_date = Option.bind metrics cm_first_order_date,
           dc_last_order_date = Option.bind metrics cm_last_order_date,
           dc_total_orders = total_orders,
           dc_delivered_orders = map_option cm_delivered_orders metrics,
           dc_total_spent = total_spent,
           dc_avg_order_value = Option.bind metrics cm_avg_order_value,
           dc_lifetime_value = ltv,
           dc_days_as_customer = Option.bind metrics cm_days_as_customer,
           dc_purchase_frequency_annual = Option.bind metrics cm_purchase_frequency_annual,
           dc_created_at = now1,
           dc_updated_at = now2 \<rparr>))"

text \<open>\<open>CustomerDimensionBuilder.build\<close>. The two clock readings are parameters.\<close>

definition build_dim_customers ::
  "business_rules \<Rightarrow> timestamp \<Rightarrow> timestamp \<Rightarrow> customer_row list \<Rightarrow> order_row list \<Rightarrow> item_row list
     \<Rightarrow> dim_customer list" where
  "build_dim_customers cfg now1 now2 customers orders items =
     map (dim_customer_row cfg now1 now2)
         (with_key (left_merge c_customer_id cm_customer_id customers
                      (customer_metrics_of (estimated_lifespan_days cfg) orders items)))"

text \<open>The purchase timestamps of a customer's orders, in extract order.\<close>

definition customer_timestamps :: "order_row list \<Rightarrow> string \<Rightarrow> timestamp option list" where
  "customer_timestamps orders cid =
     map o_order_purchase_timestamp (filter (\<lambda>od. o_customer_id od = cid) orders)"


section \<open>The other dimensions, as the fact builder reads them\<close>

record payment_row =
  p_order_id :: string
  p_payment_type :: "string option"
  p_payment_installments :: "int option"
  p_payment_value :: "rat option"

record review_row =
  r_order_id :: string
  r_review_score :: "int option"


record dim_product =
  dp_product_key :: int
  dp_product_id :: string
  dp_product_category_name :: "string option"
  dp_product_category_english :: string
  dp_product_category_segment :: string
  dp_product_weight_g :: "rat option"
  dp_product_length_cm :: "rat option"
  dp_product_height_cm :: "rat option"
  dp_product_width_cm :: "rat option"
  dp_product_volume_cm3 :: "rat option"
  dp_product_photos_qty :: "rat option"
  dp_has_photos :: bool
  dp_created_at :: timestamp

record dim_payment_type =
  dpt_payment_type_key :: int
  dpt_payment_type :: string
  dpt_payment_category :: string
  dpt_created_at :: timestamp

record dim_date =
  dd_date_key :: int
  dd_full_date :: date
  dd_year :: int
  dd_quarter :: int
  dd_month :: int
  dd_month_name :: string
  dd_week :: int
  dd_day_of_month :: int
  dd_day_of_week :: int
  dd_day_name :: string
  dd_is_weekend :: bool
  dd_is_holiday :: bool
  dd_fiscal_year :: int
  dd_fiscal_quarter :: int
  dd_created_at :: timestamp

text \<open>The date dimension as a data frame: its rows in the fifteen columns
  \<open>DateDimensionBuilder.build\<close> returns, and the column \<open>date_str\<close>, which that builder
  does not create (\<open>None\<close>: the frame has no such column).\<close>

record dim_date_frame =
  ddf_rows :: "dim_date list"
  ddf_date_str :: "int list option"

text \<open>The dictionary \<open>self.dimensions\<close> of the orchestrator; the fact builder receives
  its four entries.\<close>

record dimensions =
  dim_date_of :: dim_date_frame
  dim_products_of :: "dim_product list"
  dim_payment_type_of :: "dim_payment_type list"
  dim_customers_of :: "dim_customer list"

section \<open>Formatting a date as YYYYMMDD\<close>

definition decimal_digits :: string where
  "decimal_digits = ''0123456789''"

text \<open>The character of a digit, and the digit a character stands for: its position among
  the decimal digits.\<close>

definition digit_char :: "int \<Rightarrow> char" where
  "digit_char d = decimal_digits ! nat d"

definition digit_val :: "char \<Rightarrow> int" where
  "digit_val c = int (length (takeWhile (\<lambda>x. x \<noteq> c) decimal_digits))"

text \<open>The last \<open>k\<close> decimal digits of \<open>n\<close>, zero-padded.\<close>

fun pad :: "nat \<Rightarrow> int \<Rightarrow> string" where
  "pad 0 n = []"
| "pad (Suc k) n = pad k (n div 10) @ [digit_char (n mod 10)]"

text \<open>\<open>strftime('%Y%m%d')\<close> and the conversion of the digits to an integer
  (\<open>astype(int)\<close>, \<open>cast(pl.Int32)\<close>).\<close>

definition strftime_Ymd :: "date \<Rightarrow> string" where
  "strftime_Ymd dt = (case dt of (y, m, d) \<Rightarrow> pad 4 y @ pad 2 m @ pad 2 d)"

definition digit_step :: "char \<Rightarrow> int \<Rightarrow> int" where
  "digit_step c acc = acc * 10 + digit_val c"

definition int_of_digits :: "string \<Rightarrow> int" where
  "int_of_digits s = fold digit_step s 0"

section \<open>Date dimension\<close>

text \<open>The day after a calendar date.\<close>

definition next_day :: "date \<Rightarrow> date" where
  "next_day dt = (case dt of (y, m, d) \<Rightarrow>
     if d < days_in_month y m then (y, m, d + 1)
     else if m < 12 then (y, m + 1, 1)
     else (y + 1, 1, 1))"

text \<open>\<open>pl.date_range(start, end, interval='1d', eager=True)\<close>: the days from \<open>start\<close>
  on, one after the other, as long as they are not after \<open>end\<close>.\<close>

function date_range :: "date \<Rightarrow> date \<Rightarrow> date list" where
  "date_range s e = (if s \<le> e then s # date_range (next_day s) e else [])"
  by pat_completeness auto
termination
proof (relation "measures [\<lambda>(s, e). nat (fst e - fst s + 1),
                           \<lambda>(s, e). nat (13 - fst (snd s)),
                           \<lambda>(s, e). nat (32 - snd (snd s))]", goal_cases)
  case 1
  show ?case by simp
next
  case (2 s e)
  obtain y m d where s: "s = (y, m, d)" by (cases s) auto
  obtain ye me de where e: "e = (ye, me, de)" by (cases e) auto
  from 2 have "y \<le> ye" by (auto simp: s e)
  moreover have "days_in_month y m \<le> 31" by (simp add: days_in_month_def)
  ultimately show ?case
    by (auto simp: s e next_day_def)
qed

declare date_range.simps [simp del]

text \<open>Calendar attributes of a date: ISO weekday (1 = Monday, 7 = Sunday), day of the
  year, ISO week number, quarter.\<close>

definition weekday :: "date \<Rightarrow> int" where
  "weekday dt = (days_from_civil dt + 3) mod 7 + 1"

definition day_of_year :: "date \<Rightarrow> int" where
  "day_of_year dt = (case dt of (y, m, d) \<Rightarrow> days_from_civil dt - days_from_civil (y, 1, 1) + 1)"

definition iso_weeks_in_year :: "int \<Rightarrow> int" where
  "iso_weeks_in_year y =
     (if weekday (y, 1, 1) = 4 \<or> weekday (y, 12, 31) = 4 then 53 else 52)"

definition iso_week :: "date \<Rightarrow> int" where
  "iso_week dt = (case dt of (y, m, d) \<Rightarrow>
     (let w = (day_of_year dt - weekday dt + 10) div 7
      in if w < 1 then iso_weeks_in_year (y - 1)
         else if w > iso_weeks_in_year y then 1
         else w))"

definition quarter :: "date \<Rightarrow> int" where
  "quarter dt = (case dt of (y, m, d) \<Rightarrow> (m - 1) div 3 + 1)"

definition month_names :: "string list" where
  "month_names = [''January'', ''February'', ''March'', ''April'', ''May'', ''June'', ''July'',
     ''August'', ''September'', ''October'', ''November'', ''December'']"

definition day_names :: "string list" where
  "day_names = [''Monday'', ''Tuesday'', ''Wednesday'', ''Thursday'', ''Friday'', ''Saturday'',
     ''Sunday'']"

text \<open>\<open>strftime('%B')\<close>, \<open>strftime('%A')\<close> and \<open>strftime('%Y-%m-%d')\<close>.\<close>

definition strftime_B :: "date \<Rightarrow> string" where
  "strftime_B dt = (case dt of (y, m, d) \<Rightarrow> month_names ! nat (m - 1))"

definition strftime_A :: "date \<Rightarrow> string" where
  "strftime_A dt = day_names ! nat (weekday dt - 1)"

definition strftime_iso :: "date \<Rightarrow> string" where
  "strftime_iso dt = (case dt of (y, m, d) \<Rightarrow> pad 4 y @ ''-'' @ pad 2 m @ ''-'' @ pad 2 d)"

text \<open>The Brazilian holidays 2016 to 2018 of \<open>DateDimensionBuilder.__init__\<close>.\<close>

definition holidays :: "string list" where
  "holidays =
     [''2016-01-01'', ''2016-02-08'', ''2016-02-09'', ''2016-03-25'',
      ''2016-04-21'', ''2016-05-01'', ''2016-09-07'', ''2016-10-12'',
      ''2016-11-02'', ''2016-11-15'', ''2016-12-25'',
      ''2017-01-01'', ''2017-02-27'', ''2017-02-28'', ''2017-04-14'',
      ''2017-04-21'', ''2017-05-01'', ''2017-09-07'', ''2017-10-12'',
      ''2017-11-02'', ''2017-11-15'', ''2017-12-25'',
      ''2018-01-01'', ''2018-02-12'', ''2018-02-13'', ''2018-03-30'',
      ''2018-04-21'', ''2018-05-01'', ''2018-09-07'', ''2018-10-12'',
      ''2018-11-02'', ''2018-11-15'', ''2018-12-25'']"

definition dim_date_row :: "timestamp \<Rightarrow> date \<Rightarrow> dim_date" where
  "dim_date_row now dt = (case dt of (y, m, d) \<Rightarrow>
     \<lparr> dd_date_key = int_of_digits (strftime_Ymd dt),
       dd_full_date = dt,
       dd_year = y,
       dd_quarter = quarter dt,
       dd_month = m,
       dd_month_name = strftime_B dt,
       dd_week = iso_week dt,
       dd_day_of_month = d,
       dd_day_of_week = weekday dt,
       dd_day_name = strftime_A dt,
       dd_is_weekend = (weekday dt \<ge> 6),
       dd_is_holiday = (strftime_iso dt \<in> set holidays),
       dd_fiscal_year = y,
       dd_fiscal_quarter = quarter dt,
       dd_created_at = now \<rparr>)"

text \<open>What a builder raises.\<close>

datatype error = ValueError | AttributeError

text \<open>\<open>DateDimensionBuilder.build\<close>. The configured dates are the year, month and day
  fields of the \<open>'%Y-%m-%d'\<close> strings; \<open>strptime\<close> raises \<open>ValueError\<close> unless they form
  a date of the years 1 to 9999.\<close>

definition build_dim_date :: "business_rules \<Rightarrow> timestamp \<Rightarrow> error + dim_date list" where
  "build_dim_date cfg now =
     (if valid_date (start_date cfg) \<and> valid_date (end_date cfg)
      then Inr (map (dim_date_row now) (date_range (start_date cfg) (end_date cfg)))
      else Inl ValueError)"

section \<open>Fact orders\<close>

text \<open>Step 2: the order items aggregated to order level.\<close>

record order_items_agg =
  ia_order_id :: string
  ia_order_item_count :: int
  ia_order_subtotal :: rat
  ia_order_freight_total :: rat
  ia_order_total_value :: rat
  ia_primary_product_id :: "string option"
  ia_seller_id :: "string option"

definition order_items_agg_of :: "item_row list \<Rightarrow> order_items_agg list" where
  "order_items_agg_of items =
     map (\<lambda>(k, g).
            \<lparr> ia_order_id = k,
              ia_order_item_count = agg_count (map i_order_item_id g),
              ia_order_subtotal = agg_sum (map i_price g),
              ia_order_freight_total = agg_sum (map i_freight_value g),
              ia_order_total_value = agg_sum (map item_total g),
              ia_primary_product_id = agg_first (map (\<lambda>i. Some (i_product_id i)) g),
              ia_seller_id = agg_first (map i_seller_id g) \<rparr>)
         (group_by i_order_id items)"

text \<open>Step 3: the payments aggregated to order level.\<close>

record order_payments_agg =
  pa_order_id :: string
  pa_payment_value :: rat
  pa_payment_type :: "string option"
  pa_payment_installments :: "int option"

definition order_payments_agg_of :: "payment_row list \<Rightarrow> order_payments_agg list" where
  "order_payments_agg_of payments =
     map (\<lambda>(k, g).
            \<lparr> pa_order_id = k,
              pa_payment_value = agg_sum (map p_payment_value g),
              pa_payment_type = agg_first (map p_payment_type g),
              pa_payment_installments = agg_max (map p_payment_installments g) \<rparr>)
         (group_by p_order_id payments)"

text \<open>A row of the fact table, in the order of \<open>final_columns\<close>.\<close>

record fact_order =
  fo_order_key :: int
  fo_customer_key :: "int option"
  fo_product_key :: "int option"
  fo_order_date_key :: "int option"
  fo_delivery_date_key :: "int option"
  fo_payment_type_key :: "int option"
  fo_order_id :: string
  fo_order_status :: "string option"
  fo_seller_id :: "string option"
  fo_order_item_count :: int
  fo_order_subtotal :: rat
  fo_order_freight_total :: rat
  fo_order_total_value :: rat
  fo_payment_value :: rat
  fo_payment_installments :: int
  fo_delivery_days :: int
  fo_estimated_delivery_days :: "int option"
  fo_delivery_delay_days :: int
  fo_is_late_delivery :: bool
  fo_is_completed_order :: bool
  fo_review_score :: "int option"
  fo_has_review :: bool
  fo_order_purchase_timestamp :: "timestamp option"
  fo_order_delivered_customer_date :: "timestamp option"
  fo_created_at :: timestamp

text \<open>\<open>fillna(v)\<close> on one cell.\<close>

definition fillna :: "'a \<Rightarrow> 'a option \<Rightarrow> 'a" where
  "fillna v cell = (case cell of None \<Rightarrow> v | Some x \<Rightarrow> x)"

text \<open>Steps 4 to 6: the three left joins, on \<open>order_id\<close>, of the orders with the item
  aggregates, the payment aggregates and the reviews (\<open>order_id\<close> and \<open>review_score\<close> of
  every review row, as extracted).\<close>

type_synonym joined_order =
  "((order_row \<times> order_items_agg option) \<times> order_payments_agg option) \<times> review_row option"

definition join_orders ::
  "order_row list \<Rightarrow> item_row list \<Rightarrow> payment_row list \<Rightarrow> review_row list \<Rightarrow> joined_order list" where
  "join_orders orders items payments reviews =
     (let with_items = left_merge o_order_id ia_order_id orders (order_items_agg_of items);
          with_payments = left_merge (\<lambda>(od, ia). o_order_id od) pa_order_id with_items
                            (order_payments_agg_of payments)
      in left_merge (\<lambda>((od, ia), pa). o_order_id od) r_order_id with_payments reviews)"

text \<open>Step 8: the lookup dictionaries.\<close>

definition customer_lookup :: "dim_customer list \<Rightarrow> string \<Rightarrow> int option" where
  "customer_lookup tbl = dict_zip (map (\<lambda>r. (dc_customer_id r, dc_customer_key r)) tbl)"

definition product_lookup :: "dim_product list \<Rightarrow> string \<Rightarrow> int option" where
  "product_lookup tbl = dict_zip (map (\<lambda>r. (dp_product_id r, dp_product_key r)) tbl)"

definition payment_type_lookup :: "dim_payment_type list \<Rightarrow> string \<Rightarrow> int option" where
  "payment_type_lookup tbl =
     dict_zip (map (\<lambda>r. (dpt_payment_type r, dpt_payment_type_key r)) tbl)"

definition date_lookup :: "dim_date_frame \<Rightarrow> date \<Rightarrow> int option" where
  "date_lookup tbl = dict_zip (map (\<lambda>r. (dd_full_date r, dd_date_key r)) (ddf_rows tbl))"

text \<open>The columns of one fact row, from its joined row and its surrogate key: the fills
  of steps 4 and 5, the review flag of step 6, the delivery metrics of step 7 and the
  foreign keys of step 8.\<close>

definition fact_order_row :: "timestamp \<Rightarrow> dimensions \<Rightarrow> int \<times> joined_order \<Rightarrow> fact_order" where
  "fact_order_row now dims kj = (case kj of (key, ((od, ia), pa), rv) \<Rightarrow>
     (let payment_type = fillna ''not_defined'' (Option.bind pa pa_payment_type);
          review_score = Option.bind rv r_review_score;
          delivery_delay_days =
            timedelta_days (o_order_delivered_customer_date od)
              (o_order_estimated_delivery_date od)
      in \<lparr> fo_order_key = key,
           fo_customer_key = customer_lookup (dim_customers_of dims) (o_customer_id od),
           fo_product_key =
             Option.bind (Option.bind ia ia_primary_product_id)
               (product_lookup (dim_products_of dims)),
           fo_order_date_key =
             Option.bind (map_option fst (o_order_purchase_timestamp od))
               (date_lookup (dim_date_of dims)),
           fo_delivery_date_key =
             Option.bind (map_option fst (o_order_delivered_customer_date od))
               (date_lookup (dim_date_of dims)),
           fo_payment_type_key = payment_type_lookup (dim_payment_type_of dims) payment_type,
           fo_order_id = o_order_id od,
           fo_order_status = o_order_status od,
           fo_seller_id = Option.bind ia ia_seller_id,
           fo_order_item_count = fillna 0 (map_option ia_order_item_count ia),
           fo_order_subtotal = fillna 0 (map_option ia_order_subtotal ia),
           fo_order_freight_total = fillna 0 (map_option ia_order_freight_total ia),
           fo_order_total_value = fillna 0 (map_option ia_order_total_value ia),
           fo_payment_value = fillna 0 (map_option pa_payment_value pa),
           fo_payment_installments = fillna 1 (Option.bind pa pa_payment_installments),
           fo_delivery_days =
             fillna 0 (timedelta_days (o_order_delivered_customer_date od)
                         (o_order_purchase_timestamp od)),
           fo_estimated_delivery_days =
             timedelta_days (o_order_estimated_delivery_date od) (o_order_purchase_timestamp od),
           fo_delivery_delay_days = fillna 0 delivery_delay_days,
           fo_is_late_delivery = (case delivery_delay_days of None \<Rightarrow> False | Some d \<Rightarrow> d > 0),
           fo_is_completed_order = (o_order_status od = Some ''delivered''),
           fo_review_score = review_score,
           fo_has_review = (review_score \<noteq> None),
           fo_order_purchase_timestamp = o_order_purchase_timestamp od,
           fo_order_delivered_customer_date = o_order_delivered_customer_date od,
           fo_created_at = now \<rparr>))"

text \<open>\<open>dim_date['date_str'] = dim_date['full_date'].dt.strftime('%Y%m%d').astype(int)\<close>:
  the assignment writes into the caller's frame.\<close>

definition add_date_str :: "dim_date_frame \<Rightarrow> dim_date_frame" where
  "add_date_str tbl =
     tbl\<lparr> ddf_date_str := Some (map (\<lambda>r. int_of_digits (strftime_Ymd (dd_full_date r)))
                                   (ddf_rows tbl)) \<rparr>"

text \<open>\<open>FactOrdersBuilder.build\<close>: the fact table it returns, and the four dimension
  frames as the call leaves them.\<close>

definition build_fact_orders ::
  "timestamp \<Rightarrow> dimensions \<Rightarrow> order_row list \<Rightarrow> item_row list \<Rightarrow> payment_row list
     \<Rightarrow> review_row list \<Rightarrow> fact_order list \<times> dimensions" where
  "build_fact_orders now dims orders items payments reviews =
     (let joined = join_orders orders items payments reviews;
          dims' = dims\<lparr> dim_date_of := add_date_str (dim_date_of dims) \<rparr>
      in (map (fact_order_row now dims') (with_key joined), dims'))"

section \<open>Cohort retention\<close>

record cohort_retention =
  cr_cohort_retention_key :: int
  cr_cohort_month :: timestamp
  cr_months_since_first_purchase :: int
  cr_cohort_size :: "int option"
  cr_retained_customers :: int
  cr_retention_rate :: "rat option"
  cr_created_at :: timestamp

text \<open>Steps 2 and 3: the cohort month of every customer of the dimension, the order month
  of every order, and their inner join on \<open>customer_id\<close>. A joined row is kept here as
  (cohort month, order month, customer id); a month is null when its timestamp is.\<close>

definition cohort_analysis ::
  "dim_customer list \<Rightarrow> order_row list \<Rightarrow> (int option \<times> int option \<times> string) list" where
  "cohort_analysis dim_customers orders =
     (let customers_cohort =
            map (\<lambda>c. (dc_customer_id c, map_option to_period_M (dc_first_order_date c)))
                dim_customers;
          orders_cohort =
            map (\<lambda>od. (o_customer_id od, map_option to_period_M (o_order_purchase_timestamp od)))
                orders
      in map (\<lambda>(od, c). (snd c, snd od, fst od))
             (inner_merge fst fst orders_cohort customers_cohort))"

text \<open>Step 4: \<open>(order_month - cohort_month).apply(lambda x: x.n)\<close> and the cohort month as
  a timestamp. The difference of two periods is NaT when one of them is, and NaT has no
  attribute \<open>n\<close>: the row has no value, and the builder raises.\<close>

definition months_since_first_purchase ::
  "int option \<times> int option \<times> string \<Rightarrow> (timestamp \<times> int \<times> string) option" where
  "months_since_first_purchase row = (case row of (cohort_month, order_month, cid) \<Rightarrow>
     (case (cohort_month, order_month) of
        (Some c, Some m) \<Rightarrow> Some (period_to_timestamp c, m - c, cid)
      | _ \<Rightarrow> None))"

text \<open>The \<open>group_by(['cohort_month_date', 'months_since_first_purchase'])\<close> with
  \<open>n_unique\<close> of the customers, sorted by the two keys.\<close>

definition cohort_counts :: "(timestamp \<times> int \<times> string) list \<Rightarrow> ((timestamp \<times> int) \<times> int) list" where
  "cohort_counts rows =
     map (\<lambda>(k, g). (k, int (length (unique (map (\<lambda>(cm, n, cid). cid) g)))))
         (sort_key fst (group_by (\<lambda>(cm, n, cid). (cm, n)) rows))"

text \<open>Step 5: the cohort sizes are the counts at month 0, left-joined back on the cohort
  month; then the retention rate, the surrogate key and the creation time.\<close>

definition cohort_sizes :: "((timestamp \<times> int) \<times> int) list \<Rightarrow> (timestamp \<times> int) list" where
  "cohort_sizes counts =
     map (\<lambda>((cm, n), retained). (cm, retained)) (filter (\<lambda>((cm, n), retained). n = 0) counts)"

definition cohort_row ::
  "timestamp \<Rightarrow> int \<times> ((timestamp \<times> int) \<times> int) \<times> (timestamp \<times> int) option \<Rightarrow> cohort_retention" where
  "cohort_row now kr = (case kr of (key, ((cm, n), retained), size_row) \<Rightarrow>
     \<lparr> cr_cohort_retention_key = key,
       cr_cohort_month = cm,
       cr_months_since_first_purchase = n,
       cr_cohort_size = map_option snd size_row,
       cr_retained_customers = retained,
       cr_retention_rate =
         map_option (\<lambda>s. round2 (of_int retained / of_int (snd s) * 100)) size_row,
       cr_created_at = now \<rparr>)"

definition cohort_rows :: "timestamp \<Rightarrow> ((timestamp \<times> int) \<times> int) list \<Rightarrow> cohort_retention list" where
  "cohort_rows now counts =
     map (cohort_row now)
         (with_key (left_merge (\<lambda>((cm, n), retained). cm) fst counts (cohort_sizes counts)))"

text \<open>\<open>CohortRetentionBuilder.build\<close>.\<close>

definition build_cohort_retention ::
  "timestamp \<Rightarrow> dim_customer list \<Rightarrow> order_row list \<Rightarrow> error + cohort_retention list" where
  "build_cohort_retention now dim_customers orders =
     (case those (map months_since_first_purchase (cohort_analysis dim_customers orders)) of
        None \<Rightarrow> Inl AttributeError
      | Some rows \<Rightarrow> Inr (cohort_rows now (cohort_counts rows)))"

text \<open>The extracts hold calendar timestamps: a date of the calendar and a time of day.\<close>

definition valid_timestamp :: "timestamp \<Rightarrow> bool" where
  "valid_timestamp ts = (valid_date (fst ts) \<and> 0 \<le> snd ts \<and> snd ts < ns_per_day)"

definition valid_purchase_timestamps :: "order_row list \<Rightarrow> bool" where
  "valid_purchase_timestamps orders =
     list_all (\<lambda>od. case o_order_purchase_timestamp od of None \<Rightarrow> True
                     | Some ts \<Rightarrow> valid_timestamp ts) orders"

section \<open>Product dimension\<close>










section \<open>Payment-type dimension\<close>




section \<open>The orchestrator\<close>







text \<open>A warehouse without its \<open>created_at\<close> and \<open>updated_at\<close> columns: every such cell
  is overwritten with one fixed value.\<close>

definition no_time :: timestamp where
  "no_time = ((0, 0, 0), 0)"

definition drop_dimension_timestamps :: "dimensions \<Rightarrow> dimensions" where
  "drop_dimension_timestamps dims =
     \<lparr> dim_date_of =
         \<lparr> ddf_rows = map (\<lambda>r. r\<lparr> dd_created_at := no_time \<rparr>) (ddf_rows (dim_date_of dims)),
           ddf_date_str = ddf_date_str (dim_date_of dims) \<rparr>,
       dim_products_of = map (\<lambda>r. r\<lparr> dp_created_at := no_time \<rparr>) (dim_products_of dims),
       dim_payment_type_of =
         map (\<lambda>r. r\<lparr> dpt_created_at := no_time \<rparr>) (dim_payment_type_of dims),
       dim_customers_of =
         map (\<lambda>r. r\<lparr> dc_created_at := no_time, dc_updated_at := no_time \<rparr>)
             (dim_customers_of dims) \<rparr>"




section \<open>A small warehouse used for the concrete checks\<close>

definition example_rules :: business_rules where
  "example_rules = \<lparr> vip_customer_min_value = 1000, vip_customer_min_orders = 5,
     returning_customer_max_orders = 3,
     regions = [(''Southeast'', [''SP'', ''RJ'', ''MG'', ''ES''])],
     estimated_lifespan_days = 730,
     start_date = (2016, 1, 1), end_date = (2016, 1, 3) \<rparr>"

definition example_customers :: "customer_row list" where
  "example_customers =
     [\<lparr> c_customer_id = ''c1'', c_customer_unique_id = ''u1'',
        c_customer_city = Some ''sao paulo'', c_customer_state = Some ''SP'' \<rparr>,
      \<lparr> c_customer_id = ''c2'', c_customer_unique_id = ''u2'',
        c_customer_city = None, c_customer_state = None \<rparr>]"

definition example_orders :: "order_row list" where
  "example_orders =
     [\<lparr> o_order_id = ''o1'', o_customer_id = ''c1'', o_order_status = Some ''delivered'',
        o_order_purchase_timestamp = Some ((2016, 1, 5), 0),
        o_order_delivered_customer_date = Some ((2016, 1, 9), 0),
        o_order_estimated_delivery_date = Some ((2016, 1, 12), 0) \<rparr>]"

definition example_items :: "item_row list" where
  "example_items =
     [\<lparr> i_order_id = ''o1'', i_order_item_id = Some 1, i_product_id = ''p1'',
        i_seller_id = Some ''s1'', i_price = Some 40, i_freight_value = Some 10 \<rparr>]"

definition example_now :: timestamp where
  "example_now = ((2024, 1, 1), 0)"

definition example_dim_customers :: "dim_customer list" where
  "example_dim_customers =
     build_dim_customers example_rules example_now example_now
       example_customers example_orders example_items"

definition example_payments :: "payment_row list" where
  "example_payments = []"

definition example_reviews :: "review_row list" where
  "example_reviews =
     [\<lparr> r_order_id = ''o1'', r_review_score = Some 5 \<rparr>,
      \<lparr> r_order_id = ''o1'', r_review_score = Some 4 \<rparr>]"

definition example_dims :: dimensions where
  "example_dims =
     \<lparr> dim_date_of =
         \<lparr> ddf_rows = map (dim_date_row example_now) (date_range (2016, 1, 5) (2016, 1, 6)),
           ddf_date_str = None \<rparr>,
       dim_products_of = [],
       dim_payment_type_of = [],
       dim_customers_of = example_dim_customers \<rparr>"

definition example_fact_orders :: "fact_order list" where
  "example_fact_orders =
     fst (build_fact_orders example_now example_dims example_orders example_items
            example_payments example_reviews)"

text \<open>Three orders of two customers: \<open>c1\<close> buys in January and February 2016, \<open>c3\<close> in
  January 2016.\<close>

definition cohort_customers :: "customer_row list" where
  "cohort_customers =
     [\<lparr> c_customer_id = ''c1'', c_customer_unique_id = ''u1'',
        c_customer_city = Some ''sao paulo'', c_customer_state = Some ''SP'' \<rparr>,
      \<lparr> c_customer_id = ''c3'', c_customer_unique_id = ''u3'',
        c_customer_city = Some ''recife'', c_customer_state = Some ''PE'' \<rparr>]"

definition cohort_orders :: "order_row list" where
  "cohort_orders =
     [\<lparr> o_order_id = ''o1'', o_customer_id = ''c1'', o_order_status = Some ''delivered'',
        o_order_purchase_timestamp = Some ((2016, 1, 5), 0),
        o_order_delivered_customer_date = Some ((2016, 1, 9), 0),
        o_order_estimated_delivery_date = Some ((2016, 1, 12), 0) \<rparr>,
      \<lparr> o_order_id = ''o2'', o_customer_id = ''c1'', o_order_status = Some ''shipped'',
        o_order_purchase_timestamp = Some ((2016, 2, 10), 0),
        o_order_delivered_customer_date = None,
        o_order_estimated_delivery_date = Some ((2016, 2, 20), 0) \<rparr>,
      \<lparr> o_order_id = ''o3'', o_customer_id = ''c3'', o_order_status = Some ''delivered'',
        o_order_purchase_timestamp = Some ((2016, 1, 20), 0),
        o_order_delivered_customer_date = Some ((2016, 1, 25), 0),
        o_order_estimated_delivery_date = Some ((2016, 1, 30), 0) \<rparr>]"

definition cohort_dim_customers :: "dim_customer list" where
  "cohort_dim_customers =
     build_dim_customers example_rules example_now example_now cohort_customers cohort_orders []"

definition cohort_table :: "cohort_retention list" where
  "cohort_table =
     projr (build_cohort_retention example_now cohort_dim_customers cohort_orders)"




section \<open>Properties of the table operations\<close>

lemma set_unique: "set (unique xs) = set xs"
  by (induction xs rule: unique.induct) auto

lemma distinct_unique: "distinct (unique xs)"
  by (induction xs rule: unique.induct) (auto simp: set_unique)

lemma group_by_keys: "map fst (group_by key rows) = unique (map key rows)"
  by (simp add: group_by_def comp_def)

lemma distinct_group_by: "distinct (map fst (group_by key rows))"
  by (simp add: group_by_keys distinct_unique)

lemma group_by_mem:
  "(k, g) \<in> set (group_by key rows) \<longleftrightarrow> k \<in> key ` set rows \<and> g = filter (\<lambda>r. key r = k) rows"
  by (auto simp: group_by_def set_unique)

lemma filter_key_distinct:
  "distinct (map kr rs) \<Longrightarrow> filter (\<lambda>r. kr r = k) rs = [] \<or> (\<exists>x. filter (\<lambda>r. kr r = k) rs = [x])"
proof (induction rs)
  case Nil
  then show ?case by simp
next
  case (Cons a rs)
  then show ?case
    by (auto simp: filter_empty_conv image_iff)
qed

lemma left_merge_Nil: "left_merge kl kr [] rs = []"
  by (simp add: left_merge_def)

lemma left_merge_Cons:
  "left_merge kl kr (l # ls) rs =
     (case filter (\<lambda>r. kr r = kl l) rs of [] \<Rightarrow> [(l, None)] | ms \<Rightarrow> map (\<lambda>r. (l, Some r)) ms)
     @ left_merge kl kr ls rs"
  by (simp add: left_merge_def)

lemma left_merge_fst_distinct:
  assumes "distinct (map kr rs)"
  shows "map fst (left_merge kl kr ls rs) = ls"
proof (induction ls)
  case Nil
  show ?case by (simp add: left_merge_Nil)
next
  case (Cons l ls)
  from filter_key_distinct [OF assms, of "kl l"]
  have "map fst (case filter (\<lambda>r. kr r = kl l) rs of [] \<Rightarrow> [(l, None)]
                  | ms \<Rightarrow> map (\<lambda>r. (l, Some r)) ms) = [l]"
    by (auto split: list.splits)
  with Cons show ?case by (simp add: left_merge_Cons)
qed

lemma left_merge_mem:
  "(l, r) \<in> set (left_merge kl kr ls rs) \<longleftrightarrow>
     l \<in> set ls \<and> (case r of None \<Rightarrow> kl l \<notin> kr ` set rs
                            | Some x \<Rightarrow> x \<in> set rs \<and> kr x = kl l)"
proof (induction ls)
  case Nil
  show ?case by (simp add: left_merge_Nil)
next
  case (Cons a ls)
  have "(l, r) \<in> set (case filter (\<lambda>r. kr r = kl a) rs of [] \<Rightarrow> [(a, None)]
                  | ms \<Rightarrow> map (\<lambda>r. (a, Some r)) ms) \<longleftrightarrow>
        l = a \<and> (case r of None \<Rightarrow> kl l \<notin> kr ` set rs | Some x \<Rightarrow> x \<in> set rs \<and> kr x = kl l)"
  proof (cases "filter (\<lambda>r. kr r = kl a) rs")
    case Nil
    then have "\<forall>x\<in>set rs. kr x \<noteq> kl a" by (simp add: filter_empty_conv)
    with Nil show ?thesis by (auto split: option.splits)
  next
    case (Cons m ms)
    then have "m \<in> set (filter (\<lambda>r. kr r = kl a) rs)" by simp
    then have "kl a \<in> kr ` set rs" by force
    moreover have "set (m # ms) = {x \<in> set rs. kr x = kl a}"
      using Cons [symmetric] by simp
    ultimately show ?thesis using Cons by (auto split: option.splits)
  qed
  with Cons show ?case by (auto simp: left_merge_Cons)
qed

lemma with_key_snd: "map snd (with_key rows) = rows"
  by (simp add: with_key_def)

lemma with_key_length: "length (with_key rows) = length rows"
  by (simp add: with_key_def)

text \<open>The order in which polars returns the groups of a \<open>group_by\<close> does not reach the
  tables: a left join onto a frame with unique keys, and a sort by unique keys, give the
  same result for every order of that frame's rows.\<close>

lemma filter_key_order:
  assumes "distinct (map kr rs)" "distinct (map kr rs')" "set rs = set rs'"
  shows "filter (\<lambda>r. kr r = k) rs = filter (\<lambda>r. kr r = k) rs'"
proof -
  have s: "set (filter (\<lambda>r. kr r = k) rs) = set (filter (\<lambda>r. kr r = k) rs')"
    using assms(3) by simp
  from filter_key_distinct [OF assms(1), of k] filter_key_distinct [OF assms(2), of k]
  show ?thesis
  proof (elim disjE exE)
    assume "filter (\<lambda>r. kr r = k) rs = []" "filter (\<lambda>r. kr r = k) rs' = []"
    then show ?thesis by simp
  next
    fix x assume a: "filter (\<lambda>r. kr r = k) rs = []" "filter (\<lambda>r. kr r = k) rs' = [x]"
    with s show ?thesis by simp
  next
    fix x assume a: "filter (\<lambda>r. kr r = k) rs = [x]" "filter (\<lambda>r. kr r = k) rs' = []"
    with s show ?thesis by simp
  next
    fix x y assume a: "filter (\<lambda>r. kr r = k) rs = [x]" "filter (\<lambda>r. kr r = k) rs' = [y]"
    with s show ?thesis by simp
  qed
qed

lemma left_merge_group_order:
  assumes "distinct (map kr rs)" "distinct (map kr rs')" "set rs = set rs'"
  shows "left_merge kl kr ls rs = left_merge kl kr ls rs'"
  by (simp add: left_merge_def filter_key_order [OF assms])

lemma sort_key_group_order:
  assumes "distinct (map f xs)" "distinct (map f ys)" "set xs = set ys"
  shows "sort_key f xs = sort_key f ys"
proof -
  have "map f (sort_key f xs) = map f (sort_key f ys)"
  proof (rule sorted_distinct_set_unique)
    show "sorted (map f (sort_key f xs))" by (rule sorted_sort_key)
    show "sorted (map f (sort_key f ys))" by (rule sorted_sort_key)
    show "distinct (map f (sort_key f xs))" using assms(1) by (simp add: distinct_map)
    show "distinct (map f (sort_key f ys))" using assms(2) by (simp add: distinct_map)
    show "set (map f (sort_key f xs)) = set (map f (sort_key f ys))"
      using assms(3) by simp
  qed
  moreover have "inj_on f (set (sort_key f xs) \<union> set (sort_key f ys))"
    using assms(1,3) by (simp add: distinct_map)
  ultimately show ?thesis by (simp add: inj_on_map_eq_map)
qed

section \<open>Properties of the customer dimension\<close>

lemma order_revenue_keys: "distinct (map fst (order_revenue items))"
proof -
  have "map fst (order_revenue items) = map fst (group_by i_order_id items)"
    by (simp add: order_revenue_def comp_def case_prod_unfold)
  then show ?thesis by (simp add: distinct_group_by)
qed

lemma orders_with_total_fst: "map fst (orders_with_total orders items) = orders"
proof -
  have "map fst (orders_with_total orders items)
        = map fst (left_merge o_order_id fst orders (order_revenue items))"
    by (simp add: orders_with_total_def comp_def case_prod_unfold)
  then show ?thesis
    by (simp add: left_merge_fst_distinct [OF order_revenue_keys])
qed

lemma metrics_of_group_id: "cm_customer_id (metrics_of_group L (cid, g)) = cid"
  by (simp add: metrics_of_group_def Let_def)

lemma customer_metrics_keys:
  "map cm_customer_id (customer_metrics_of L orders items) = unique (map o_customer_id orders)"
proof -
  have "map cm_customer_id (customer_metrics_of L orders items)
        = map fst (group_by (\<lambda>(od, amt). o_customer_id od) (orders_with_total orders items))"
    by (simp add: customer_metrics_of_def comp_def case_prod_unfold metrics_of_group_def Let_def)
  also have "\<dots> = unique (map (\<lambda>(od, amt). o_customer_id od) (orders_with_total orders items))"
    by (simp add: group_by_keys)
  also have "map (\<lambda>(od, amt). o_customer_id od) (orders_with_total orders items)
             = map o_customer_id (map fst (orders_with_total orders items))"
    by (simp add: comp_def case_prod_unfold)
  finally show ?thesis by (simp add: orders_with_total_fst)
qed

lemma customer_metrics_distinct: "distinct (map cm_customer_id (customer_metrics_of L orders items))"
  by (simp add: customer_metrics_keys distinct_unique)

lemma customer_metrics_ids:
  "cm_customer_id ` set (customer_metrics_of L orders items) = o_customer_id ` set orders"
proof -
  have "cm_customer_id ` set (customer_metrics_of L orders items)
        = set (map cm_customer_id (customer_metrics_of L orders items))" by simp
  also have "\<dots> = o_customer_id ` set orders"
    by (simp only: customer_metrics_keys set_unique set_map)
  finally show ?thesis .
qed

lemma customer_metrics_mem:
  assumes "m \<in> set (customer_metrics_of L orders items)"
  shows "m = metrics_of_group L (cm_customer_id m,
               filter (\<lambda>(od, amt). o_customer_id od = cm_customer_id m) (orders_with_total orders items))"
proof -
  from assms obtain k g where kg: "(k, g) \<in> set (group_by (\<lambda>(od, amt). o_customer_id od) (orders_with_total orders items))"
    and m: "m = metrics_of_group L (k, g)"
    by (auto simp: customer_metrics_of_def)
  from kg have "g = filter (\<lambda>r. (\<lambda>(od, amt). o_customer_id od) r = k) (orders_with_total orders items)"
    by (simp add: group_by_mem)
  moreover have "cm_customer_id m = k" using m by (simp add: metrics_of_group_id)
  ultimately show ?thesis using m by (simp add: case_prod_unfold)
qed

lemma build_dim_customers_mem:
  assumes "r \<in> set (build_dim_customers cfg now1 now2 customers orders items)"
  shows "\<exists>key c metrics. r = dim_customer_row cfg now1 now2 (key, c, metrics)
           \<and> (c, metrics) \<in> set (left_merge c_customer_id cm_customer_id customers
                      (customer_metrics_of (estimated_lifespan_days cfg) orders items))"
proof -
  from assms obtain kc where kc: "kc \<in> set (with_key (left_merge c_customer_id cm_customer_id customers
                      (customer_metrics_of (estimated_lifespan_days cfg) orders items)))"
     and r: "r = dim_customer_row cfg now1 now2 kc"
    by (auto simp: build_dim_customers_def)
  obtain key c metrics where e: "kc = (key, c, metrics)" by (cases kc) auto
  from kc have "snd kc \<in> set (map snd (with_key (left_merge c_customer_id cm_customer_id customers
                      (customer_metrics_of (estimated_lifespan_days cfg) orders items))))"
    by (simp only: set_map) (rule imageI)
  then have "(c, metrics) \<in> set (left_merge c_customer_id cm_customer_id customers
                      (customer_metrics_of (estimated_lifespan_days cfg) orders items))"
    by (simp add: with_key_snd e)
  with r e show ?thesis by blast
qed

lemma build_dim_customers_ids:
  "map dc_customer_id (build_dim_customers cfg now1 now2 customers orders items)
     = map c_customer_id customers"
proof -
  let ?M = "left_merge c_customer_id cm_customer_id customers
              (customer_metrics_of (estimated_lifespan_days cfg) orders items)"
  have "map dc_customer_id (build_dim_customers cfg now1 now2 customers orders items)
        = map (\<lambda>kc. c_customer_id (fst (snd kc))) (with_key ?M)"
    by (simp add: build_dim_customers_def dim_customer_row_def Let_def case_prod_unfold comp_def)
  also have "\<dots> = map c_customer_id (map fst (map snd (with_key ?M)))"
    by (simp add: comp_def)
  also have "\<dots> = map c_customer_id customers"
    by (simp only: with_key_snd left_merge_fst_distinct [OF customer_metrics_distinct])
  finally show ?thesis .
qed

lemma group_timestamps:
  "map (\<lambda>(od, amt). o_order_purchase_timestamp od)
       (filter (\<lambda>(od, amt). o_customer_id od = cid) (orders_with_total orders items))
   = customer_timestamps orders cid"
proof -
  have "map (\<lambda>(od, amt). o_order_purchase_timestamp od)
          (filter (\<lambda>(od, amt). o_customer_id od = cid) (orders_with_total orders items))
        = map o_order_purchase_timestamp
            (filter (\<lambda>od. o_customer_id od = cid) (map fst (orders_with_total orders items)))"
    by (simp add: filter_map comp_def case_prod_unfold)
  then show ?thesis by (simp add: orders_with_total_fst customer_timestamps_def)
qed

lemma customer_metrics_dates:
  assumes "m \<in> set (customer_metrics_of L orders items)"
  shows "cm_first_order_date m = agg_min (customer_timestamps orders (cm_customer_id m))"
    and "cm_last_order_date m = agg_max (customer_timestamps orders (cm_customer_id m))"
    and "cm_days_as_customer m = days_as_customer (cm_first_order_date m) (cm_last_order_date m)"
    and "cm_purchase_frequency_annual m
           = purchase_frequency_annual (cm_total_orders m) (cm_days_as_customer m)"
    and "cm_lifetime_value m
           = lifetime_value L (cm_avg_order_value m) (cm_purchase_frequency_annual m)"
proof -
  let ?g = "filter (\<lambda>(od, amt). o_customer_id od = cm_customer_id m) (orders_with_total orders items)"
  have m: "m = metrics_of_group L (cm_customer_id m, ?g)"
    by (rule customer_metrics_mem [OF assms])
  have "cm_first_order_date (metrics_of_group L (cm_customer_id m, ?g))
        = agg_min (customer_timestamps orders (cm_customer_id m))"
    by (simp add: metrics_of_group_def Let_def group_timestamps)
  with m show "cm_first_order_date m = agg_min (customer_timestamps orders (cm_customer_id m))"
    by simp
  have "cm_last_order_date (metrics_of_group L (cm_customer_id m, ?g))
        = agg_max (customer_timestamps orders (cm_customer_id m))"
    by (simp add: metrics_of_group_def Let_def group_timestamps)
  with m show "cm_last_order_date m = agg_max (customer_timestamps orders (cm_customer_id m))"
    by simp
  have "cm_days_as_customer (metrics_of_group L (cm_customer_id m, ?g))
        = days_as_customer (cm_first_order_date (metrics_of_group L (cm_customer_id m, ?g)))
            (cm_last_order_date (metrics_of_group L (cm_customer_id m, ?g)))"
    by (simp add: metrics_of_group_def Let_def)
  with m show "cm_days_as_customer m = days_as_customer (cm_first_order_date m) (cm_last_order_date m)"
    by simp
  have "cm_purchase_frequency_annual (metrics_of_group L (cm_customer_id m, ?g))
        = purchase_frequency_annual (cm_total_orders (metrics_of_group L (cm_customer_id m, ?g)))
            (cm_days_as_customer (metrics_of_group L (cm_customer_id m, ?g)))"
    by (simp add: metrics_of_group_def Let_def)
  with m show "cm_purchase_frequency_annual m
           = purchase_frequency_annual (cm_total_orders m) (cm_days_as_customer m)"
    by simp
  have "cm_lifetime_value (metrics_of_group L (cm_customer_id m, ?g))
        = lifetime_value L (cm_avg_order_value (metrics_of_group L (cm_customer_id m, ?g)))
            (cm_purchase_frequency_annual (metrics_of_group L (cm_customer_id m, ?g)))"
    by (simp add: metrics_of_group_def Let_def)
  with m show "cm_lifetime_value m
           = lifetime_value L (cm_avg_order_value m) (cm_purchase_frequency_annual m)"
    by simp
qed

text \<open>Every row of the dimension is a customer without orders, zero-filled, or a customer
  with its metrics.\<close>

lemma dim_customer_cases:
  assumes "r \<in> set (build_dim_customers cfg now1 now2 customers orders items)"
  obtains (no_orders) key c where
      "r = dim_customer_row cfg now1 now2 (key, c, None)"
      "dc_customer_id r \<notin> o_customer_id ` set orders"
    | (has_orders) key c m where
      "r = dim_customer_row cfg now1 now2 (key, c, Some m)"
      "m \<in> set (customer_metrics_of (estimated_lifespan_days cfg) orders items)"
      "cm_customer_id m = dc_customer_id r"
      "dc_customer_id r \<in> o_customer_id ` set orders"
proof -
  let ?ms = "customer_metrics_of (estimated_lifespan_days cfg) orders items"
  from build_dim_customers_mem [OF assms] obtain key c metrics where
    r: "r = dim_customer_row cfg now1 now2 (key, c, metrics)" and
    cm: "(c, metrics) \<in> set (left_merge c_customer_id cm_customer_id customers ?ms)"
    by blast
  have id: "dc_customer_id r = c_customer_id c"
    using r by (simp add: dim_customer_row_def Let_def)
  show thesis
  proof (cases metrics)
    case None
    with cm have "c_customer_id c \<notin> cm_customer_id ` set ?ms"
      by (simp add: left_merge_mem)
    then have "dc_customer_id r \<notin> o_customer_id ` set orders"
      by (simp add: customer_metrics_ids id)
    with r None show thesis by (rule_tac no_orders) auto
  next
    case (Some m)
    with cm have m: "m \<in> set ?ms" "cm_customer_id m = c_customer_id c"
      by (simp_all add: left_merge_mem)
    then have "cm_customer_id m \<in> cm_customer_id ` set ?ms" by blast
    then have "dc_customer_id r \<in> o_customer_id ` set orders"
      by (simp add: customer_metrics_ids id m)
    with r Some m id show thesis by (rule_tac has_orders) auto
  qed
qed

lemma set_drop_nulls: "set (drop_nulls xs) = {v. Some v \<in> set xs}"
  by (induction xs) (auto simp: drop_nulls_def split: option.splits)

lemma drop_nulls_Nil: "drop_nulls xs = [] \<longleftrightarrow> (\<forall>x\<in>set xs. x = None)"
proof -
  have "drop_nulls xs = [] \<longleftrightarrow> set (drop_nulls xs) = {}" by simp
  also have "\<dots> \<longleftrightarrow> (\<forall>x\<in>set xs. x = None)"
    unfolding set_drop_nulls by (metis (mono_tags, lifting) Collect_empty_eq not_Some_eq)
  finally show ?thesis .
qed

lemma agg_min_None: "agg_min xs = None \<longleftrightarrow> (\<forall>x\<in>set xs. x = None)"
  by (simp add: agg_min_def drop_nulls_Nil [symmetric] split: list.splits)

lemma agg_max_None: "agg_max xs = None \<longleftrightarrow> (\<forall>x\<in>set xs. x = None)"
  by (simp add: agg_max_def drop_nulls_Nil [symmetric] split: list.splits)

lemma dim_customer_row_None:
  "dc_total_orders (dim_customer_row cfg now1 now2 (key, c, None)) = 0"
  "dc_total_spent (dim_customer_row cfg now1 now2 (key, c, None)) = 0"
  "dc_lifetime_value (dim_customer_row cfg now1 now2 (key, c, None)) = Some 0"
  "dc_avg_order_value (dim_customer_row cfg now1 now2 (key, c, None)) = None"
  "dc_first_order_date (dim_customer_row cfg now1 now2 (key, c, None)) = None"
  "dc_last_order_date (dim_customer_row cfg now1 now2 (key, c, None)) = None"
  "dc_days_as_customer (dim_customer_row cfg now1 now2 (key, c, None)) = None"
  "dc_delivered_orders (dim_customer_row cfg now1 now2 (key, c, None)) = None"
  "dc_purchase_frequency_annual (dim_customer_row cfg now1 now2 (key, c, None)) = None"
  by (simp_all add: dim_customer_row_def Let_def)

lemma dim_customer_row_Some:
  "dc_total_orders (dim_customer_row cfg now1 now2 (key, c, Some m)) = cm_total_orders m"
  "dc_total_spent (dim_customer_row cfg now1 now2 (key, c, Some m)) = cm_total_spent m"
  "dc_lifetime_value (dim_customer_row cfg now1 now2 (key, c, Some m)) = cm_lifetime_value m"
  "dc_avg_order_value (dim_customer_row cfg now1 now2 (key, c, Some m)) = cm_avg_order_value m"
  "dc_first_order_date (dim_customer_row cfg now1 now2 (key, c, Some m)) = cm_first_order_date m"
  "dc_last_order_date (dim_customer_row cfg now1 now2 (key, c, Some m)) = cm_last_order_date m"
  "dc_days_as_customer (dim_customer_row cfg now1 now2 (key, c, Some m)) = cm_days_as_customer m"
  "dc_delivered_orders (dim_customer_row cfg now1 now2 (key, c, Some m))
     = Some (cm_delivered_orders m)"
  "dc_purchase_frequency_annual (dim_customer_row cfg now1 now2 (key, c, Some m))
     = cm_purchase_frequency_annual m"
  by (simp_all add: dim_customer_row_def Let_def)


lemma days_as_customer_None:
  "days_as_customer a b = None \<longleftrightarrow> a = None \<or> b = None"
  by (auto simp: days_as_customer_def timedelta_days_def split: option.splits)

lemma days_as_customer_ge_1: "days_as_customer a b = Some d \<Longrightarrow> 1 \<le> d"
  by (auto simp: days_as_customer_def)

text \<open>
  C4 (as amended). Every row of the customer dimension whose customer has an order with a
  purchase timestamp has \<open>days_as_customer \<ge> 1\<close>, also when the first and the last order
  coincide; on every other row (a customer without orders, or whose orders all have a
  null purchase timestamp) \<open>days_as_customer\<close> is null.
\<close>

theorem days_as_customer_floor:
  assumes "r \<in> set (build_dim_customers cfg now1 now2 customers orders items)"
  shows "if \<exists>od\<in>set orders. o_customer_id od = dc_customer_id r
                \<and> o_order_purchase_timestamp od \<noteq> None
         then \<exists>d. dc_days_as_customer r = Some d \<and> 1 \<le> d
         else dc_days_as_customer r = None"
  using assms
proof (cases rule: dim_customer_cases)
  case (no_orders key c)
  then have "dc_days_as_customer r = None"
    by (simp add: dim_customer_row_None)
  moreover from no_orders(2) have "\<not> (\<exists>od\<in>set orders. o_customer_id od = dc_customer_id r
                \<and> o_order_purchase_timestamp od \<noteq> None)"
    by (auto simp: image_iff)
  ultimately show ?thesis by simp
next
  case (has_orders key c m)
  let ?ts = "customer_timestamps orders (dc_customer_id r)"
  have "dc_days_as_customer r = cm_days_as_customer m"
    using has_orders(1) by (simp add: dim_customer_row_Some)
  then have days: "dc_days_as_customer r = days_as_customer (agg_min ?ts) (agg_max ?ts)"
    using customer_metrics_dates(1,2,3) [OF has_orders(2)] has_orders(3) by simp
  have ex: "(\<exists>od\<in>set orders. o_customer_id od = dc_customer_id r
                \<and> o_order_purchase_timestamp od \<noteq> None) \<longleftrightarrow> \<not> (\<forall>x\<in>set ?ts. x = None)"
    by (auto simp: customer_timestamps_def)
  show ?thesis
  proof (cases "\<forall>x\<in>set ?ts. x = None")
    case True
    then have "dc_days_as_customer r = None"
      by (simp add: days days_as_customer_None agg_min_None)
    with True ex show ?thesis by simp
  next
    case False
    then have "days_as_customer (agg_min ?ts) (agg_max ?ts) \<noteq> None"
      by (simp add: days_as_customer_None agg_min_None agg_max_None)
    then obtain d where d: "dc_days_as_customer r = Some d"
      using days by auto
    then have "1 \<le> d" using days days_as_customer_ge_1 by metis
    with d False ex show ?thesis by simp
  qed
qed

theorem days_as_customer_floor_witness:
  "example_dim_customers ! 0 \<in> set example_dim_customers
   \<and> (\<exists>od\<in>set example_orders. o_customer_id od = dc_customer_id (example_dim_customers ! 0)
          \<and> o_order_purchase_timestamp od \<noteq> None)
   \<and> dc_first_order_date (example_dim_customers ! 0) = dc_last_order_date (example_dim_customers ! 0)
   \<and> (\<exists>d. dc_days_as_customer (example_dim_customers ! 0) = Some d \<and> 1 \<le> d)"
proof -
  have len: "0 < length example_dim_customers" by code_simp
  have m: "example_dim_customers ! 0
           \<in> set (build_dim_customers example_rules example_now example_now
                    example_customers example_orders example_items)"
    using nth_mem [OF len] by (simp add: example_dim_customers_def)
  have id: "dc_customer_id (example_dim_customers ! 0) = ''c1''" by code_simp
  have h: "\<exists>od\<in>set example_orders. o_customer_id od = dc_customer_id (example_dim_customers ! 0)
          \<and> o_order_purchase_timestamp od \<noteq> None"
    by (simp add: id example_orders_def)
  have e: "dc_first_order_date (example_dim_customers ! 0) = dc_last_order_date (example_dim_customers ! 0)"
    by code_simp
  from days_as_customer_floor [OF m] h e nth_mem [OF len] show ?thesis by simp
qed

theorem days_as_customer_null_counterexample:
  "length example_dim_customers = 2
   \<and> dc_customer_id (example_dim_customers ! 1) = ''c2''
   \<and> dc_total_orders (example_dim_customers ! 1) = 0
   \<and> dc_days_as_customer (example_dim_customers ! 1) = None"
  by code_simp

text \<open>
  C10. A customer without any order keeps its row in the dimension; that row has
  \<open>total_orders\<close>, \<open>total_spent\<close> and \<open>lifetime_value\<close> set to 0, and
  \<open>avg_order_value\<close>, \<open>first_order_date\<close>, \<open>last_order_date\<close>, \<open>days_as_customer\<close>,
  \<open>delivered_orders\<close> and \<open>purchase_frequency_annual\<close> left null.
\<close>

theorem customer_without_orders_row:
  assumes "r \<in> set (build_dim_customers cfg now1 now2 customers orders items)"
    and "dc_customer_id r \<notin> o_customer_id ` set orders"
  shows "dc_total_orders r = 0 \<and> dc_total_spent r = 0 \<and> dc_lifetime_value r = Some 0
       \<and> dc_avg_order_value r = None \<and> dc_first_order_date r = None
       \<and> dc_last_order_date r = None \<and> dc_days_as_customer r = None
       \<and> dc_delivered_orders r = None \<and> dc_purchase_frequency_annual r = None
       \<and> map dc_customer_id (build_dim_customers cfg now1 now2 customers orders items)
           = map c_customer_id customers"
  using assms(1)
proof (cases rule: dim_customer_cases)
  case (no_orders key c)
  then show ?thesis
    by (simp add: dim_customer_row_None build_dim_customers_ids)
next
  case (has_orders key c m)
  with assms(2) show ?thesis by simp
qed

theorem customer_without_orders_row_witness:
  "example_dim_customers ! 1 \<in> set example_dim_customers
   \<and> dc_customer_id (example_dim_customers ! 1) \<notin> o_customer_id ` set example_orders
   \<and> dc_total_orders (example_dim_customers ! 1) = 0
   \<and> dc_total_spent (example_dim_customers ! 1) = 0
   \<and> dc_lifetime_value (example_dim_customers ! 1) = Some 0
   \<and> dc_avg_order_value (example_dim_customers ! 1) = None
   \<and> dc_first_order_date (example_dim_customers ! 1) = None
   \<and> dc_last_order_date (example_dim_customers ! 1) = None
   \<and> dc_days_as_customer (example_dim_customers ! 1) = None
   \<and> dc_delivered_orders (example_dim_customers ! 1) = None
   \<and> dc_purchase_frequency_annual (example_dim_customers ! 1) = None"
proof -
  have len: "1 < length example_dim_customers" by code_simp
  have m: "example_dim_customers ! 1
           \<in> set (build_dim_customers example_rules example_now example_now
                    example_customers example_orders example_items)"
    using nth_mem [OF len] by (simp add: example_dim_customers_def)
  have id: "dc_customer_id (example_dim_customers ! 1) = ''c2''" by code_simp
  have h: "dc_customer_id (example_dim_customers ! 1) \<notin> o_customer_id ` set example_orders"
    unfolding id by (simp add: example_orders_def)
  from customer_without_orders_row [OF m h] h nth_mem [OF len] show ?thesis by blast
qed





section \<open>Properties of the fact table\<close>

lemma left_merge_total:
  assumes "l \<in> set ls"
  shows "\<exists>r. (l, r) \<in> set (left_merge kl kr ls rs)"
proof (cases "kl l \<in> kr ` set rs")
  case True
  then obtain x where "x \<in> set rs" "kr x = kl l" by auto
  with assms have "(l, Some x) \<in> set (left_merge kl kr ls rs)"
    by (simp add: left_merge_mem)
  then show ?thesis ..
next
  case False
  with assms have "(l, None) \<in> set (left_merge kl kr ls rs)"
    by (simp add: left_merge_mem)
  then show ?thesis ..
qed

lemma order_payments_agg_ids:
  "pa_order_id ` set (order_payments_agg_of payments) = p_order_id ` set payments"
proof -
  have "map pa_order_id (order_payments_agg_of payments) = map fst (group_by p_order_id payments)"
    by (simp add: order_payments_agg_of_def comp_def case_prod_unfold)
  then have "set (map pa_order_id (order_payments_agg_of payments)) = set (map p_order_id payments)"
    by (simp only: group_by_keys set_unique)
  then show ?thesis by simp
qed

lemma order_payments_agg_distinct: "distinct (map pa_order_id (order_payments_agg_of payments))"
proof -
  have "map pa_order_id (order_payments_agg_of payments) = map fst (group_by p_order_id payments)"
    by (simp add: order_payments_agg_of_def comp_def case_prod_unfold)
  then show ?thesis by (simp add: distinct_group_by)
qed

lemma order_items_agg_distinct: "distinct (map ia_order_id (order_items_agg_of items))"
proof -
  have "map ia_order_id (order_items_agg_of items) = map fst (group_by i_order_id items)"
    by (simp add: order_items_agg_of_def comp_def case_prod_unfold)
  then show ?thesis by (simp add: distinct_group_by)
qed

text \<open>The rows of the three joins: every order appears, and a row has a payment aggregate
  exactly when the order has payment records.\<close>

lemma join_orders_mem:
  assumes "(((od, ia), pa), rv) \<in> set (join_orders orders items payments reviews)"
  shows "od \<in> set orders"
    and "pa = None \<longleftrightarrow> o_order_id od \<notin> p_order_id ` set payments"
proof -
  let ?wi = "left_merge o_order_id ia_order_id orders (order_items_agg_of items)"
  let ?wp = "left_merge (\<lambda>(od, ia). o_order_id od) pa_order_id ?wi (order_payments_agg_of payments)"
  from assms have wp: "((od, ia), pa) \<in> set ?wp"
    by (simp add: join_orders_def Let_def left_merge_mem)
  then have wi: "(od, ia) \<in> set ?wi"
    by (simp add: left_merge_mem)
  from wp have pa: "case pa of None \<Rightarrow> o_order_id od \<notin> pa_order_id ` set (order_payments_agg_of payments)
             | Some x \<Rightarrow> x \<in> set (order_payments_agg_of payments) \<and> pa_order_id x = o_order_id od"
    by (cases pa) (simp_all add: left_merge_mem)
  from wi show "od \<in> set orders" by (simp add: left_merge_mem)
  from pa show "pa = None \<longleftrightarrow> o_order_id od \<notin> p_order_id ` set payments"
    unfolding order_payments_agg_ids [symmetric] by (cases pa) force+
qed

lemma join_orders_total:
  assumes "od \<in> set orders"
  shows "\<exists>ia pa rv. (((od, ia), pa), rv) \<in> set (join_orders orders items payments reviews)"
proof -
  let ?wi = "left_merge o_order_id ia_order_id orders (order_items_agg_of items)"
  let ?wp = "left_merge (\<lambda>(od, ia). o_order_id od) pa_order_id ?wi (order_payments_agg_of payments)"
  from left_merge_total [OF assms] obtain ia where "(od, ia) \<in> set ?wi" by blast
  from left_merge_total [OF this] obtain pa where "((od, ia), pa) \<in> set ?wp" by blast
  from left_merge_total [OF this] obtain rv where
    "(((od, ia), pa), rv) \<in> set (left_merge (\<lambda>((od, ia), pa). o_order_id od) r_order_id ?wp reviews)"
    by blast
  then show ?thesis by (auto simp: join_orders_def Let_def)
qed

lemma build_fact_orders_rows:
  "set (fst (build_fact_orders now dims orders items payments reviews))
     = fact_order_row now (dims\<lparr> dim_date_of := add_date_str (dim_date_of dims) \<rparr>)
         ` set (with_key (join_orders orders items payments reviews))"
  by (simp add: build_fact_orders_def Let_def)

lemma with_key_mem_snd: "(key, x) \<in> set (with_key xs) \<Longrightarrow> x \<in> set xs"
  by (auto simp: with_key_def dest: set_zip_rightD)

lemma with_key_total: "x \<in> set xs \<Longrightarrow> \<exists>key. (key, x) \<in> set (with_key xs)"
proof -
  assume "x \<in> set xs"
  then have "x \<in> set (map snd (with_key xs))" by (simp add: with_key_snd)
  then show ?thesis by auto
qed

lemma fact_order_row_payment:
  "fo_order_id (fact_order_row now dims (key, ((od, ia), pa), rv)) = o_order_id od"
  "fo_payment_value (fact_order_row now dims (key, ((od, ia), None), rv)) = 0"
  "fo_payment_installments (fact_order_row now dims (key, ((od, ia), None), rv)) = 1"
  "fo_payment_type_key (fact_order_row now dims (key, ((od, ia), None), rv))
     = payment_type_lookup (dim_payment_type_of dims) ''not_defined''"
  by (simp_all add: fact_order_row_def Let_def fillna_def)

text \<open>
  C2 (as amended). An order without payment records still gets its fact rows; on each of
  them \<open>payment_value\<close> is 0, \<open>payment_installments\<close> is 1, and the payment type is the
  sentinel \<open>'not_defined'\<close>, so that \<open>payment_type_key\<close> is the key the payment-type
  dimension gives that sentinel.
\<close>

theorem order_without_payments_defaults:
  assumes "od \<in> set orders"
    and "o_order_id od \<notin> p_order_id ` set payments"
  shows "(\<exists>f\<in>set (fst (build_fact_orders now dims orders items payments reviews)).
            fo_order_id f = o_order_id od)
       \<and> (\<forall>f\<in>set (fst (build_fact_orders now dims orders items payments reviews)).
            fo_order_id f = o_order_id od \<longrightarrow>
              fo_payment_value f = 0 \<and> fo_payment_installments f = 1
              \<and> fo_payment_type_key f
                  = payment_type_lookup (dim_payment_type_of dims) ''not_defined'')"
proof
  let ?dims = "dims\<lparr> dim_date_of := add_date_str (dim_date_of dims) \<rparr>"
  from join_orders_total [OF assms(1)] obtain ia pa rv where
    j: "(((od, ia), pa), rv) \<in> set (join_orders orders items payments reviews)" by blast
  from with_key_total [OF j] obtain key where
    "(key, ((od, ia), pa), rv) \<in> set (with_key (join_orders orders items payments reviews))" ..
  then have "fact_order_row now ?dims (key, ((od, ia), pa), rv)
             \<in> set (fst (build_fact_orders now dims orders items payments reviews))"
    unfolding build_fact_orders_rows by (rule imageI)
  then show "\<exists>f\<in>set (fst (build_fact_orders now dims orders items payments reviews)).
            fo_order_id f = o_order_id od"
    by (rule rev_bexI) (simp add: fact_order_row_payment)
next
  let ?dims = "dims\<lparr> dim_date_of := add_date_str (dim_date_of dims) \<rparr>"
  show "\<forall>f\<in>set (fst (build_fact_orders now dims orders items payments reviews)).
            fo_order_id f = o_order_id od \<longrightarrow>
              fo_payment_value f = 0 \<and> fo_payment_installments f = 1
              \<and> fo_payment_type_key f
                  = payment_type_lookup (dim_payment_type_of dims) ''not_defined''"
  proof (intro ballI impI)
    fix f
    assume "f \<in> set (fst (build_fact_orders now dims orders items payments reviews))"
      and id: "fo_order_id f = o_order_id od"
    then obtain kj where kj': "kj \<in> set (with_key (join_orders orders items payments reviews))"
      and f': "f = fact_order_row now ?dims kj"
      unfolding build_fact_orders_rows by blast
    obtain key j where e: "kj = (key, j)" by (cases kj)
    from kj' f' have kj: "(key, j) \<in> set (with_key (join_orders orders items payments reviews))"
      and f: "f = fact_order_row now ?dims (key, j)"
      by (simp_all add: e)
    obtain od' ia pa rv where j: "j = (((od', ia), pa), rv)"
      by (metis surj_pair)
    from kj have "(((od', ia), pa), rv) \<in> set (join_orders orders items payments reviews)"
      unfolding j by (rule with_key_mem_snd)
    from join_orders_mem(2) [OF this]
    have pa: "pa = None \<longleftrightarrow> o_order_id od' \<notin> p_order_id ` set payments" .
    from id have "o_order_id od' = o_order_id od"
      by (simp add: f j fact_order_row_payment)
    with pa assms(2) have "pa = None" by simp
    then show "fo_payment_value f = 0 \<and> fo_payment_installments f = 1
              \<and> fo_payment_type_key f
                  = payment_type_lookup (dim_payment_type_of dims) ''not_defined''"
      by (simp add: f j fact_order_row_payment)
  qed
qed

theorem order_without_payments_defaults_witness:
  "example_orders ! 0 \<in> set example_orders
   \<and> o_order_id (example_orders ! 0) \<notin> p_order_id ` set example_payments
   \<and> example_fact_orders ! 0 \<in> set example_fact_orders
   \<and> fo_order_id (example_fact_orders ! 0) = o_order_id (example_orders ! 0)
   \<and> fo_payment_value (example_fact_orders ! 0) = 0
   \<and> fo_payment_installments (example_fact_orders ! 0) = 1
   \<and> fo_payment_type_key (example_fact_orders ! 0)
       = payment_type_lookup (dim_payment_type_of example_dims) ''not_defined''"
proof -
  have o: "example_orders ! 0 \<in> set example_orders"
    by (simp add: example_orders_def)
  have p: "o_order_id (example_orders ! 0) \<notin> p_order_id ` set example_payments"
    by (simp add: example_payments_def)
  have len: "0 < length example_fact_orders" by code_simp
  have m: "example_fact_orders ! 0
           \<in> set (fst (build_fact_orders example_now example_dims example_orders example_items
                          example_payments example_reviews))"
    using nth_mem [OF len] by (simp add: example_fact_orders_def)
  have id: "fo_order_id (example_fact_orders ! 0) = o_order_id (example_orders ! 0)"
    by code_simp
  from order_without_payments_defaults [OF o p, of example_now example_dims example_items
         example_reviews] m id o p nth_mem [OF len]
  show ?thesis by blast
qed

theorem order_without_payments_installments_counterexample:
  "fo_order_id (example_fact_orders ! 0) = ''o1''
   \<and> ''o1'' \<notin> p_order_id ` set example_payments
   \<and> fo_payment_installments (example_fact_orders ! 0) = 1
   \<and> fo_payment_installments (example_fact_orders ! 0) \<noteq> 0"
  by code_simp


lemma join_orders_orders:
  assumes "distinct (map r_order_id reviews)"
  shows "map (\<lambda>j. fst (fst (fst j))) (join_orders orders items payments reviews) = orders"
proof -
  let ?wi = "left_merge o_order_id ia_order_id orders (order_items_agg_of items)"
  let ?wp = "left_merge (\<lambda>(od, ia). o_order_id od) pa_order_id ?wi (order_payments_agg_of payments)"
  let ?wr = "left_merge (\<lambda>((od, ia), pa). o_order_id od) r_order_id ?wp reviews"
  have "map fst ?wr = ?wp" by (rule left_merge_fst_distinct [OF assms])
  moreover have "map fst ?wp = ?wi" by (rule left_merge_fst_distinct [OF order_payments_agg_distinct])
  moreover have "map fst ?wi = orders" by (rule left_merge_fst_distinct [OF order_items_agg_distinct])
  ultimately have "map fst (map fst (map fst ?wr)) = orders" by simp
  then show ?thesis by (simp add: join_orders_def Let_def comp_def)
qed

lemma fact_order_ids:
  "map fo_order_id (fst (build_fact_orders now dims orders items payments reviews))
     = map (\<lambda>j. o_order_id (fst (fst (fst j)))) (join_orders orders items payments reviews)"
proof -
  let ?J = "join_orders orders items payments reviews"
  have "map fo_order_id (fst (build_fact_orders now dims orders items payments reviews))
        = map (\<lambda>kj. o_order_id (fst (fst (fst (snd kj))))) (with_key ?J)"
    by (simp add: build_fact_orders_def Let_def comp_def fact_order_row_def case_prod_unfold)
  also have "\<dots> = map (\<lambda>j. o_order_id (fst (fst (fst j)))) (map snd (with_key ?J))"
    by (simp add: comp_def)
  finally show ?thesis by (simp only: with_key_snd)
qed

text \<open>With at most one review per order the fact table has one row per order row, in
  extract order; in every case no order is dropped.\<close>

lemma fact_orders_one_row_per_order:
  assumes "distinct (map r_order_id reviews)"
  shows "map fo_order_id (fst (build_fact_orders now dims orders items payments reviews))
           = map o_order_id orders"
proof -
  have "map (\<lambda>j. o_order_id (fst (fst (fst j)))) (join_orders orders items payments reviews)
        = map o_order_id (map (\<lambda>j. fst (fst (fst j))) (join_orders orders items payments reviews))"
    by (simp add: comp_def)
  then show ?thesis by (simp only: fact_order_ids join_orders_orders [OF assms])
qed

lemma fact_orders_no_order_dropped:
  "fo_order_id ` set (fst (build_fact_orders now dims orders items payments reviews))
     = o_order_id ` set orders"
proof -
  let ?J = "join_orders orders items payments reviews"
  have "fo_order_id ` set (fst (build_fact_orders now dims orders items payments reviews))
        = set (map fo_order_id (fst (build_fact_orders now dims orders items payments reviews)))"
    by simp
  also have "\<dots> = (\<lambda>j. o_order_id (fst (fst (fst j)))) ` set ?J"
    by (simp only: fact_order_ids set_map)
  also have "\<dots> = o_order_id ` set orders"
  proof (intro equalityI subsetI)
    fix k assume "k \<in> (\<lambda>j. o_order_id (fst (fst (fst j)))) ` set ?J"
    then obtain j where j: "j \<in> set ?J" and k: "k = o_order_id (fst (fst (fst j)))" by blast
    obtain od ia pa rv where e: "j = (((od, ia), pa), rv)" by (metis surj_pair)
    from j have "od \<in> set orders" unfolding e by (rule join_orders_mem(1))
    then show "k \<in> o_order_id ` set orders" by (simp add: k e)
  next
    fix k assume "k \<in> o_order_id ` set orders"
    then obtain od where od: "od \<in> set orders" and k: "k = o_order_id od" by blast
    from join_orders_total [OF od] obtain ia pa rv where
      "(((od, ia), pa), rv) \<in> set ?J" by blast
    then have "o_order_id (fst (fst (fst (((od, ia), pa), rv)))) \<in> (\<lambda>j. o_order_id (fst (fst (fst j)))) ` set ?J"
      by (rule imageI)
    then show "k \<in> (\<lambda>j. o_order_id (fst (fst (fst j)))) ` set ?J" by (simp add: k)
  qed
  finally show ?thesis .
qed

text \<open>
  C1 (the code at the failing input). The orders extract holds the single order \<open>o1\<close>
  and the reviews extract two reviews of it: the left join with the reviews, which are
  not aggregated to order level, returns two fact rows for \<open>o1\<close>.
\<close>

theorem fact_orders_duplicates_reviewed_order:
  "map o_order_id example_orders = [''o1'']
   \<and> map r_order_id example_reviews = [''o1'', ''o1'']
   \<and> map fo_order_id example_fact_orders = [''o1'', ''o1'']
   \<and> length example_fact_orders = 2
   \<and> length (remdups (map o_order_id example_orders)) = 1"
  by code_simp

text \<open>The call leaves the customer, product and payment-type dimensions and the rows of
  the date dimension as they were, and sets the column \<open>date_str\<close> of the date dimension.\<close>

lemma build_fact_orders_frame:
  "snd (build_fact_orders now dims orders items payments reviews)
     = dims\<lparr> dim_date_of := add_date_str (dim_date_of dims) \<rparr>"
  "dim_customers_of (snd (build_fact_orders now dims orders items payments reviews))
     = dim_customers_of dims"
  "dim_products_of (snd (build_fact_orders now dims orders items payments reviews))
     = dim_products_of dims"
  "dim_payment_type_of (snd (build_fact_orders now dims orders items payments reviews))
     = dim_payment_type_of dims"
  "ddf_rows (dim_date_of (snd (build_fact_orders now dims orders items payments reviews)))
     = ddf_rows (dim_date_of dims)"
  "ddf_date_str (dim_date_of (snd (build_fact_orders now dims orders items payments reviews)))
     = Some (map (\<lambda>r. int_of_digits (strftime_Ymd (dd_full_date r))) (ddf_rows (dim_date_of dims)))"
  by (simp_all add: build_fact_orders_def Let_def add_date_str_def)

text \<open>
  C3 (the code at the failing input). The date dimension handed to the fact builder has
  no column \<open>date_str\<close>; after the call the same frame has it.
\<close>

theorem fact_orders_writes_date_str:
  "ddf_date_str (dim_date_of example_dims) = None
   \<and> ddf_date_str (dim_date_of (snd (build_fact_orders example_now example_dims
         example_orders example_items example_payments example_reviews)))
       = Some [20160105, 20160106]
   \<and> snd (build_fact_orders example_now example_dims
         example_orders example_items example_payments example_reviews) \<noteq> example_dims"
proof -
  have a: "ddf_date_str (dim_date_of example_dims) = None"
    by (simp add: example_dims_def)
  have b: "ddf_date_str (dim_date_of (snd (build_fact_orders example_now example_dims
         example_orders example_items example_payments example_reviews)))
       = Some [20160105, 20160106]"
    by code_simp
  from a b show ?thesis by auto
qed

section \<open>Properties of the date dimension\<close>

lemma digit_val_char: "0 \<le> d \<Longrightarrow> d \<le> 9 \<Longrightarrow> digit_val (digit_char d) = d"
proof -
  assume "0 \<le> d" "d \<le> 9"
  then have "d = 0 \<or> d = 1 \<or> d = 2 \<or> d = 3 \<or> d = 4 \<or> d = 5 \<or> d = 6 \<or> d = 7 \<or> d = 8 \<or> d = 9"
    by arith
  then show ?thesis
    by (elim disjE) (simp_all add: digit_val_def digit_char_def decimal_digits_def)
qed

lemma digit_val_mod: "digit_val (digit_char (n mod 10)) = n mod 10"
  by (rule digit_val_char) simp_all

lemma fold_digit_step:
  "fold digit_step ys a = a * 10 ^ length ys + fold digit_step ys 0"
proof (induction ys arbitrary: a rule: rev_induct)
  case Nil
  show ?case by simp
next
  case (snoc y ys)
  have "fold digit_step (ys @ [y]) a = fold digit_step ys a * 10 + digit_val y"
    by (simp add: digit_step_def)
  also have "\<dots> = (a * 10 ^ length ys + fold digit_step ys 0) * 10 + digit_val y"
    by (simp only: snoc.IH [of a])
  also have "\<dots> = a * 10 ^ length (ys @ [y]) + (fold digit_step ys 0 * 10 + digit_val y)"
    by (simp add: algebra_simps)
  also have "fold digit_step ys 0 * 10 + digit_val y = fold digit_step (ys @ [y]) 0"
    by (simp add: digit_step_def)
  finally show ?case .
qed

lemma int_of_digits_app:
  "int_of_digits (xs @ ys) = int_of_digits xs * 10 ^ length ys + int_of_digits ys"
  by (simp add: int_of_digits_def fold_digit_step [of ys "fold digit_step xs 0"])

lemma length_pad: "length (pad k n) = k"
  by (induction k n rule: pad.induct) simp_all

lemma int_of_digits_pad: "int_of_digits (pad k n) = n mod 10 ^ k"
proof (induction k n rule: pad.induct)
  case (1 n)
  show ?case by (simp add: int_of_digits_def)
next
  case (2 k n)
  have "int_of_digits (pad (Suc k) n) = int_of_digits (pad k (n div 10)) * 10 + n mod 10"
    by (simp add: int_of_digits_app digit_val_mod) (simp add: int_of_digits_def digit_step_def digit_val_mod)
  also have "\<dots> = ((n div 10) mod 10 ^ k) * 10 + n mod 10"
    by (simp only: 2)
  also have "\<dots> = n mod 10 ^ Suc k"
  proof -
    have "n mod (10 * 10 ^ k) = 10 * (n div 10 mod 10 ^ k) + n mod 10"
      by (rule zmod_zmult2_eq) simp
    then show ?thesis by simp
  qed
  finally show ?case .
qed

lemma date_key_value:
  assumes "0 \<le> y" "y \<le> 9999" "0 \<le> m" "m \<le> 99" "0 \<le> d" "d \<le> 99"
  shows "int_of_digits (strftime_Ymd (y, m, d)) = y * 10000 + m * 100 + d"
proof -
  have "int_of_digits (strftime_Ymd (y, m, d))
        = int_of_digits ((pad 4 y @ pad 2 m) @ pad 2 d)"
    by (simp add: strftime_Ymd_def)
  also have "\<dots> = (y mod 10 ^ 4 * 10 ^ 2 + m mod 10 ^ 2) * 10 ^ 2 + d mod 10 ^ 2"
    by (simp only: int_of_digits_app int_of_digits_pad length_pad)
  also have "y mod 10 ^ 4 = y" using assms by simp
  also have "m mod 10 ^ 2 = m" using assms by simp
  also have "d mod 10 ^ 2 = d" using assms by simp
  finally show ?thesis by simp
qed

lemma next_day_greater: "s < next_day s"
  by (cases s) (auto simp: next_day_def)

lemma date_range_lower: "x \<in> set (date_range s e) \<Longrightarrow> s \<le> x"
proof (induction s e rule: date_range.induct)
  case (1 s e)
  show ?case
  proof (cases "s \<le> e")
    case True
    with "1.prems" have "x = s \<or> x \<in> set (date_range (next_day s) e)"
      by (subst (asm) date_range.simps) simp
    then show ?thesis
    proof
      assume "x = s" then show ?thesis by simp
    next
      assume "x \<in> set (date_range (next_day s) e)"
      with "1.IH" True have "next_day s \<le> x" by simp
      with next_day_greater [of s] show ?thesis by simp
    qed
  next
    case False
    with "1.prems" show ?thesis by (subst (asm) date_range.simps) simp
  qed
qed

lemma date_range_sorted: "sorted_wrt (<) (date_range s e)"
proof (induction s e rule: date_range.induct)
  case (1 s e)
  show ?case
  proof (cases "s \<le> e")
    case True
    have "\<forall>x\<in>set (date_range (next_day s) e). s < x"
    proof
      fix x assume "x \<in> set (date_range (next_day s) e)"
      then have "next_day s \<le> x" by (rule date_range_lower)
      with next_day_greater [of s] show "s < x" by (rule less_le_trans)
    qed
    with "1.IH" True show ?thesis
      by (subst date_range.simps) simp
  next
    case False
    then show ?thesis by (subst date_range.simps) simp
  qed
qed

lemma days_in_month_le: "days_in_month y m \<le> 31"
  by (simp add: days_in_month_def)

lemma days_in_month_ge: "28 \<le> days_in_month y m"
  by (simp add: days_in_month_def)

text \<open>No calendar date lies strictly between a date and the day after it.\<close>

lemma next_day_least:
  assumes "valid_date s" "valid_date x" "s < x"
  shows "next_day s \<le> x"
proof -
  obtain y m d where s: "s = (y, m, d)" by (cases s) auto
  obtain y' m' d' where x: "x = (y', m', d')" by (cases x) auto
  from assms(1) have vs: "m \<le> 12" "d \<le> days_in_month y m"
    by (simp_all add: s valid_date_def)
  from assms(2) have vx: "1 \<le> m'" "m' \<le> 12" "1 \<le> d'" "d' \<le> days_in_month y' m'"
    by (simp_all add: x valid_date_def)
  from assms(3) have "y < y' \<or> (y = y' \<and> m < m') \<or> (y = y' \<and> m = m' \<and> d < d')"
    by (simp add: s x) arith
  then consider "y < y'" | "y = y'" "m < m'" | "y = y'" "m = m'" "d < d'"
    by blast
  then show ?thesis
  proof cases
    case 1
    with vx show ?thesis by (simp add: s x next_day_def)
  next
    case 2
    with vx vs show ?thesis by (simp add: s x next_day_def)
  next
    case 3
    with vx vs show ?thesis by (simp add: s x next_day_def)
  qed
qed

lemma next_day_valid:
  assumes "valid_date s" "valid_date e" "s < e"
  shows "valid_date (next_day s)"
proof -
  obtain y m d where s: "s = (y, m, d)" by (cases s) auto
  obtain y' m' d' where e: "e = (y', m', d')" by (cases e) auto
  from assms(1) have vs: "1 \<le> y" "y \<le> 9999" "1 \<le> m" "m \<le> 12" "1 \<le> d" "d \<le> days_in_month y m"
    by (simp_all add: s valid_date_def)
  from assms(2) have ve: "y' \<le> 9999" "m' \<le> 12" "d' \<le> days_in_month y' m'"
    by (simp_all add: e valid_date_def)
  show ?thesis
  proof (cases "d < days_in_month y m")
    case True
    with vs show ?thesis by (simp add: s next_day_def valid_date_def)
  next
    case last: False
    show ?thesis
    proof (cases "m < 12")
      case True
      with last vs days_in_month_ge [of y "m + 1"] show ?thesis
        by (simp add: s next_day_def valid_date_def)
    next
      case False
      with vs have m: "m = 12" by simp
      from last vs have d: "d = days_in_month y 12" by (simp add: m)
      have "y < y'"
      proof (rule ccontr)
        assume "\<not> y < y'"
        with assms(3) have "y = y'" by (auto simp: s e)
        with assms(3) ve m have "m' = 12" by (auto simp: s e)
        with assms(3) \<open>y = y'\<close> m d ve show False by (auto simp: s e)
      qed
      with ve vs days_in_month_ge [of "y + 1" 1] False last show ?thesis
        by (simp add: s next_day_def valid_date_def)
    qed
  qed
qed

lemma date_range_set:
  assumes "valid_date s" "valid_date e"
  shows "set (date_range s e) = {x. valid_date x \<and> s \<le> x \<and> x \<le> e}"
  using assms
proof (induction s e rule: date_range.induct)
  case (1 s e)
  show ?case
  proof (cases "s < e")
    case True
    then have le: "s \<le> e" by simp
    have v: "valid_date (next_day s)" using "1.prems" True by (rule next_day_valid)
    from "1.IH" [OF le v "1.prems"(2)]
    have ih: "set (date_range (next_day s) e) = {x. valid_date x \<and> next_day s \<le> x \<and> x \<le> e}" .
    have "set (date_range s e) = insert s (set (date_range (next_day s) e))"
      using le by (subst date_range.simps) simp
    also have "\<dots> = {x. valid_date x \<and> s \<le> x \<and> x \<le> e}"
    proof (intro equalityI subsetI)
      fix x assume "x \<in> insert s (set (date_range (next_day s) e))"
      then show "x \<in> {x. valid_date x \<and> s \<le> x \<and> x \<le> e}"
        using "1.prems"(1) le next_day_greater [of s] by (auto simp: ih)
    next
      fix x assume "x \<in> {x. valid_date x \<and> s \<le> x \<and> x \<le> e}"
      then have x: "valid_date x" "s \<le> x" "x \<le> e" by simp_all
      show "x \<in> insert s (set (date_range (next_day s) e))"
      proof (cases "x = s")
        case True then show ?thesis by simp
      next
        case False
        with x(2) have "s < x" by simp
        from next_day_least [OF "1.prems"(1) x(1) this] x show ?thesis by (simp add: ih)
      qed
    qed
    finally show ?thesis .
  next
    case False
    show ?thesis
    proof (cases "s = e")
      case True
      have "\<not> next_day e \<le> e" using next_day_greater [of e] by simp
      then have "date_range (next_day e) e = []" by (subst date_range.simps) simp
      then have "date_range e e = [e]" by (subst date_range.simps) simp
      with True "1.prems" show ?thesis by auto
    next
      case ne: False
      with False have "\<not> s \<le> e" by simp
      then have "date_range s e = []" by (subst date_range.simps) simp
      with \<open>\<not> s \<le> e\<close> show ?thesis by auto
    qed
  qed
qed

lemma dim_date_row_fields:
  "dd_full_date (dim_date_row now dt) = dt"
  "dd_date_key (dim_date_row now dt) = int_of_digits (strftime_Ymd dt)"
  "dd_year (dim_date_row now (y, m, d)) = y"
  "dd_month (dim_date_row now (y, m, d)) = m"
  "dd_day_of_month (dim_date_row now (y, m, d)) = d"
  by (simp_all add: dim_date_row_def case_prod_unfold)

lemma dim_date_rows_full_date: "map dd_full_date (map (dim_date_row now) ds) = ds"
  by (induction ds) (simp_all add: dim_date_row_fields)

lemma date_key_valid:
  assumes "valid_date dt"
  shows "dd_date_key (dim_date_row now dt)
           = dd_year (dim_date_row now dt) * 10000 + dd_month (dim_date_row now dt) * 100
             + dd_day_of_month (dim_date_row now dt)"
proof -
  obtain y m d where dt: "dt = (y, m, d)" by (cases dt) auto
  from assms days_in_month_le [of y m]
  have "0 \<le> y" "y \<le> 9999" "0 \<le> m" "m \<le> 99" "0 \<le> d" "d \<le> 99"
    by (simp_all add: dt valid_date_def)
  then show ?thesis
    by (simp add: dt dim_date_row_fields date_key_value)
qed

text \<open>
  C8. For well-formed configured dates with \<open>start_date \<le> end_date\<close> the builder
  returns a table whose \<open>full_date\<close> column holds exactly the calendar days from
  \<open>start_date\<close> to \<open>end_date\<close>, each once, in increasing order; on every row
  \<open>date_key\<close> is the integer read from \<open>strftime(full_date, '%Y%m%d')\<close>, that is
  year \<times> 10000 + month \<times> 100 + day.
\<close>

theorem date_dimension_rows:
  assumes "valid_date (start_date cfg)" and "valid_date (end_date cfg)"
    and "start_date cfg \<le> end_date cfg"
  shows "\<exists>rows. build_dim_date cfg now = Inr rows
           \<and> set (map dd_full_date rows)
               = {d. valid_date d \<and> start_date cfg \<le> d \<and> d \<le> end_date cfg}
           \<and> distinct (map dd_full_date rows)
           \<and> sorted_wrt (<) (map dd_full_date rows)
           \<and> (\<forall>r\<in>set rows.
                 dd_date_key r = int_of_digits (strftime_Ymd (dd_full_date r))
                 \<and> dd_date_key r = dd_year r * 10000 + dd_month r * 100 + dd_day_of_month r)"
proof -
  let ?ds = "date_range (start_date cfg) (end_date cfg)"
  let ?rows = "map (dim_date_row now) ?ds"
  have b: "build_dim_date cfg now = Inr ?rows"
    using assms(1,2) by (simp add: build_dim_date_def)
  have fd: "map dd_full_date ?rows = ?ds" by (rule dim_date_rows_full_date)
  have s: "set ?ds = {d. valid_date d \<and> start_date cfg \<le> d \<and> d \<le> end_date cfg}"
    by (rule date_range_set [OF assms(1,2)])
  have so: "sorted_wrt (<) ?ds" by (rule date_range_sorted)
  then have di: "distinct ?ds" by (simp add: strict_sorted_iff)
  have k: "\<forall>r\<in>set ?rows.
                 dd_date_key r = int_of_digits (strftime_Ymd (dd_full_date r))
                 \<and> dd_date_key r = dd_year r * 10000 + dd_month r * 100 + dd_day_of_month r"
  proof
    fix r assume "r \<in> set ?rows"
    then obtain dt where dt: "dt \<in> set ?ds" and r: "r = dim_date_row now dt" by auto
    from dt s have "valid_date dt" by simp
    from date_key_valid [OF this, of now] show "dd_date_key r = int_of_digits (strftime_Ymd (dd_full_date r))
                 \<and> dd_date_key r = dd_year r * 10000 + dd_month r * 100 + dd_day_of_month r"
      by (simp add: r dim_date_row_fields)
  qed
  from s have s': "set (map dd_full_date ?rows)
               = {d. valid_date d \<and> start_date cfg \<le> d \<and> d \<le> end_date cfg}"
    by (simp only: fd)
  from di have di': "distinct (map dd_full_date ?rows)" by (simp only: fd)
  from so have so': "sorted_wrt (<) (map dd_full_date ?rows)" by (simp only: fd)
  show ?thesis
    by (rule exI [of _ ?rows]) (rule conjI [OF b conjI [OF s' conjI [OF di' conjI [OF so' k]]]])
qed

theorem date_dimension_rows_witness:
  "valid_date (start_date example_rules) \<and> valid_date (end_date example_rules)
   \<and> start_date example_rules \<le> end_date example_rules
   \<and> (\<exists>rows. build_dim_date example_rules example_now = Inr rows
         \<and> set (map dd_full_date rows)
             = {d. valid_date d \<and> start_date example_rules \<le> d \<and> d \<le> end_date example_rules}
         \<and> distinct (map dd_full_date rows)
         \<and> map dd_full_date rows = [(2016, 1, 1), (2016, 1, 2), (2016, 1, 3)]
         \<and> map dd_date_key rows = [20160101, 20160102, 20160103])"
proof -
  have a: "valid_date (start_date example_rules)" by code_simp
  have b: "valid_date (end_date example_rules)" by code_simp
  have c: "start_date example_rules \<le> end_date example_rules" by code_simp
  have d: "map dd_full_date (projr (build_dim_date example_rules example_now))
             = [(2016, 1, 1), (2016, 1, 2), (2016, 1, 3)]" by code_simp
  have e: "map dd_date_key (projr (build_dim_date example_rules example_now))
             = [20160101, 20160102, 20160103]" by code_simp
  from date_dimension_rows [OF a b c, of example_now] obtain rows where
    r: "build_dim_date example_rules example_now = Inr rows"
       "set (map dd_full_date rows)
             = {d. valid_date d \<and> start_date example_rules \<le> d \<and> d \<le> end_date example_rules}"
       "distinct (map dd_full_date rows)"
    by blast
  from d e r(1) have v: "map dd_full_date rows = [(2016, 1, 1), (2016, 1, 2), (2016, 1, 3)]"
    "map dd_date_key rows = [20160101, 20160102, 20160103]" by simp_all
  have ex: "\<exists>rows. build_dim_date example_rules example_now = Inr rows
         \<and> set (map dd_full_date rows)
             = {d. valid_date d \<and> start_date example_rules \<le> d \<and> d \<le> end_date example_rules}
         \<and> distinct (map dd_full_date rows)
         \<and> map dd_full_date rows = [(2016, 1, 1), (2016, 1, 2), (2016, 1, 3)]
         \<and> map dd_date_key rows = [20160101, 20160102, 20160103]"
    by (rule exI [of _ rows]) (rule conjI [OF r(1) conjI [OF r(2) conjI [OF r(3) conjI [OF v(1) v(2)]]]])
  show ?thesis
    by (rule conjI [OF a conjI [OF b conjI [OF c ex]]])
qed

section \<open>Properties of the cohort retention\<close>

lemma those_Some: "those xs = Some ys \<Longrightarrow> xs = map Some ys"
proof (induction xs arbitrary: ys)
  case Nil
  then show ?case by simp
next
  case (Cons x xs)
  then show ?case by (auto split: option.splits)
qed

lemma inner_merge_mem:
  "(l, r) \<in> set (inner_merge kl kr ls rs) \<longleftrightarrow> l \<in> set ls \<and> r \<in> set rs \<and> kr r = kl l"
  by (auto simp: inner_merge_def)

lemma distinct_map_sort_key: "distinct (map f (sort_key g xs)) = distinct (map f xs)"
  by (simp add: distinct_map)

lemma agg_min_Some:
  assumes "agg_min xs = Some v"
  shows "Some v \<in> set xs" and "\<And>w. Some w \<in> set xs \<Longrightarrow> v \<le> w"
proof -
  from assms obtain a as where d: "drop_nulls xs = a # as" and v: "v = fold min as a"
    by (auto simp: agg_min_def split: list.splits)
  have m: "v = Min (set (drop_nulls xs))"
    by (simp only: d v Min.set_eq_fold)
  have ne: "set (drop_nulls xs) \<noteq> {}" by (simp add: d)
  have "Min (set (drop_nulls xs)) \<in> set (drop_nulls xs)"
    by (rule Min_in [OF finite_set ne])
  then have "v \<in> set (drop_nulls xs)" by (simp only: m)
  then show "Some v \<in> set xs" by (simp add: set_drop_nulls)
  fix w assume "Some w \<in> set xs"
  then have "w \<in> set (drop_nulls xs)" by (simp add: set_drop_nulls)
  then have "Min (set (drop_nulls xs)) \<le> w" by (intro Min_le) simp_all
  then show "v \<le> w" by (simp add: m)
qed

text \<open>On calendar timestamps the month ordinal is monotone.\<close>

lemma to_period_M_mono:
  assumes "valid_timestamp a" "valid_timestamp b" "a \<le> b"
  shows "to_period_M a \<le> to_period_M b"
proof -
  obtain y m d t where a: "a = ((y, m, d), t)" by (metis surj_pair)
  obtain y' m' d' t' where b: "b = ((y', m', d'), t')" by (metis surj_pair)
  from assms(1) have va: "1 \<le> m" "m \<le> 12" by (simp_all add: a valid_timestamp_def valid_date_def)
  from assms(2) have vb: "1 \<le> m'" "m' \<le> 12" by (simp_all add: b valid_timestamp_def valid_date_def)
  from assms(3) have "y < y' \<or> (y = y' \<and> m \<le> m')"
    by (simp add: a b) arith
  with va vb show ?thesis by (auto simp: a b to_period_M_def)
qed

lemma dim_customer_first_order_date:
  assumes "r \<in> set (build_dim_customers cfg now1 now2 customers orders items)"
    and "dc_customer_id r \<in> o_customer_id ` set orders"
  shows "dc_first_order_date r = agg_min (customer_timestamps orders (dc_customer_id r))"
  using assms(1)
proof (cases rule: dim_customer_cases)
  case (no_orders key c)
  with assms(2) show ?thesis by simp
next
  case (has_orders key c m)
  have "dc_first_order_date r = cm_first_order_date m"
    using has_orders(1) by (simp add: dim_customer_row_Some)
  with customer_metrics_dates(1) [OF has_orders(2)] has_orders(3) show ?thesis by simp
qed

lemma cohort_analysis_mem:
  "(cm, om, cid) \<in> set (cohort_analysis dimc orders) \<longleftrightarrow>
     (\<exists>od\<in>set orders. \<exists>c\<in>set dimc.
        dc_customer_id c = o_customer_id od \<and> cid = o_customer_id od
        \<and> om = map_option to_period_M (o_order_purchase_timestamp od)
        \<and> cm = map_option to_period_M (dc_first_order_date c))"
proof
  assume "(cm, om, cid) \<in> set (cohort_analysis dimc orders)"
  then show "\<exists>od\<in>set orders. \<exists>c\<in>set dimc.
        dc_customer_id c = o_customer_id od \<and> cid = o_customer_id od
        \<and> om = map_option to_period_M (o_order_purchase_timestamp od)
        \<and> cm = map_option to_period_M (dc_first_order_date c)"
    by (auto simp: cohort_analysis_def Let_def inner_merge_mem) metis
next
  assume "\<exists>od\<in>set orders. \<exists>c\<in>set dimc.
        dc_customer_id c = o_customer_id od \<and> cid = o_customer_id od
        \<and> om = map_option to_period_M (o_order_purchase_timestamp od)
        \<and> cm = map_option to_period_M (dc_first_order_date c)"
  then obtain od c where od: "od \<in> set orders" and c: "c \<in> set dimc"
    and e: "dc_customer_id c = o_customer_id od" "cid = o_customer_id od"
      "om = map_option to_period_M (o_order_purchase_timestamp od)"
      "cm = map_option to_period_M (dc_first_order_date c)"
    by blast
  let ?l = "(o_customer_id od, map_option to_period_M (o_order_purchase_timestamp od))"
  let ?r = "(dc_customer_id c, map_option to_period_M (dc_first_order_date c))"
  let ?ls = "map (\<lambda>od. (o_customer_id od, map_option to_period_M (o_order_purchase_timestamp od))) orders"
  let ?rs = "map (\<lambda>c. (dc_customer_id c, map_option to_period_M (dc_first_order_date c))) dimc"
  have "?l \<in> set ?ls" using od by (simp add: image_iff) blast
  moreover have "?r \<in> set ?rs" using c by (simp add: image_iff) blast
  ultimately have "(?l, ?r) \<in> set (inner_merge fst fst ?ls ?rs)"
    using e(1) by (simp only: inner_merge_mem fst_conv)
  then have "(\<lambda>(od, c). (snd c, snd od, fst od)) (?l, ?r)
             \<in> set (cohort_analysis dimc orders)"
    unfolding cohort_analysis_def Let_def set_map by (rule imageI)
  then show "(cm, om, cid) \<in> set (cohort_analysis dimc orders)"
    by (simp add: e)
qed

lemma unique_Nil: "unique xs = [] \<longleftrightarrow> xs = []"
  by (cases xs) simp_all

lemma cohort_counts_keys:
  "map fst (cohort_counts rows) = map fst (sort_key fst (group_by (\<lambda>(cm, n, cid). (cm, n)) rows))"
  by (simp add: cohort_counts_def comp_def case_prod_unfold)

lemma cohort_counts_distinct: "distinct (map fst (cohort_counts rows))"
  by (simp only: cohort_counts_keys distinct_map_sort_key distinct_group_by)

lemma cohort_counts_key_set:
  "set (map fst (cohort_counts rows)) = (\<lambda>(cm, n, cid). (cm, n)) ` set rows"
proof -
  have "set (map fst (cohort_counts rows))
        = set (map fst (group_by (\<lambda>(cm, n, cid). (cm, n)) rows))"
    by (simp only: cohort_counts_keys set_map set_sort)
  also have "\<dots> = (\<lambda>(cm, n, cid). (cm, n)) ` set rows"
    by (simp only: group_by_keys set_unique set_map)
  finally show ?thesis .
qed

lemma cohort_counts_pos:
  assumes "(k, c) \<in> set (cohort_counts rows)"
  shows "1 \<le> c"
proof -
  from assms obtain g where g: "(k, g) \<in> set (group_by (\<lambda>(cm, n, cid). (cm, n)) rows)"
    and c: "c = int (length (unique (map (\<lambda>(cm, n, cid). cid) g)))"
    by (auto simp: cohort_counts_def)
  from g have gf: "g = filter (\<lambda>r. (\<lambda>(cm, n, cid). (cm, n)) r = k) rows"
    and "k \<in> (\<lambda>(cm, n, cid). (cm, n)) ` set rows"
    by (simp_all add: group_by_mem)
  then obtain x where "x \<in> set rows" "(\<lambda>(cm, n, cid). (cm, n)) x = k" by blast
  then have "x \<in> set g" by (simp add: gf)
  then have "g \<noteq> []" by (cases g) simp_all
  then have "unique (map (\<lambda>(cm, n, cid). cid) g) \<noteq> []" by (simp add: unique_Nil)
  then show ?thesis by (simp add: c Suc_le_eq)
qed

lemma cohort_sizes_mem:
  "(cm, s) \<in> set (cohort_sizes counts) \<longleftrightarrow> ((cm, 0), s) \<in> set counts"
proof
  assume "(cm, s) \<in> set (cohort_sizes counts)"
  then obtain x where x: "x \<in> set counts" "snd (fst x) = 0" "(cm, s) = (fst (fst x), snd x)"
    by (auto simp: cohort_sizes_def case_prod_unfold simp del: split_paired_All split_paired_Ex)
  then have "x = ((cm, 0), s)" by (simp add: prod_eq_iff)
  with x(1) show "((cm, 0), s) \<in> set counts" by simp
next
  assume a: "((cm, 0), s) \<in> set counts"
  then have "((cm, 0), s) \<in> set (filter (\<lambda>((cm, n), retained). n = 0) counts)" by simp
  then have "(cm, s) \<in> (\<lambda>((cm, n), retained). (cm, retained))
                          ` set (filter (\<lambda>((cm, n), retained). n = 0) counts)"
    by (rule rev_image_eqI) simp
  then show "(cm, s) \<in> set (cohort_sizes counts)" by (simp add: cohort_sizes_def)
qed

lemma cohort_sizes_distinct:
  assumes "distinct (map fst counts)"
  shows "distinct (map fst (cohort_sizes counts))"
proof -
  have e: "map fst (cohort_sizes counts)
        = map fst (filter (\<lambda>k. snd k = 0) (map fst counts))"
    by (simp add: cohort_sizes_def filter_map comp_def case_prod_unfold)
  have "distinct (filter (\<lambda>k. snd k = 0) (map fst counts))"
    using assms by simp
  moreover have "inj_on fst (set (filter (\<lambda>k. snd k = (0::int)) (map fst counts)))"
    by (rule inj_onI) (auto simp: prod_eq_iff)
  ultimately show ?thesis by (simp only: e distinct_map)
qed

lemma cohort_row_fields:
  "cr_cohort_month (cohort_row now (key, ((cm, n), retained), size_row)) = cm"
  "cr_months_since_first_purchase (cohort_row now (key, ((cm, n), retained), size_row)) = n"
  "cr_retained_customers (cohort_row now (key, ((cm, n), retained), size_row)) = retained"
  "cr_cohort_size (cohort_row now (key, ((cm, n), retained), size_row)) = map_option snd size_row"
  "cr_retention_rate (cohort_row now (key, ((cm, n), retained), size_row))
     = map_option (\<lambda>s. round2 (of_int retained / of_int (snd s) * 100)) size_row"
  by (simp_all add: cohort_row_def)

lemma cohort_rows_keys:
  assumes "distinct (map fst counts)"
  shows "map (\<lambda>r. (cr_cohort_month r, cr_months_since_first_purchase r)) (cohort_rows now counts)
           = map fst counts"
proof -
  let ?M = "left_merge (\<lambda>((cm, n), retained). cm) fst counts (cohort_sizes counts)"
  have "map (\<lambda>r. (cr_cohort_month r, cr_months_since_first_purchase r)) (cohort_rows now counts)
        = map (\<lambda>kr. fst (fst (snd kr))) (with_key ?M)"
    by (simp add: cohort_rows_def comp_def cohort_row_def case_prod_unfold)
  also have "\<dots> = map fst (map fst (map snd (with_key ?M)))"
    by (simp add: comp_def)
  also have "\<dots> = map fst counts"
    by (simp only: with_key_snd left_merge_fst_distinct [OF cohort_sizes_distinct [OF assms]])
  finally show ?thesis .
qed

lemma cohort_rows_mem:
  assumes "r \<in> set (cohort_rows now counts)"
  obtains key cm n retained size_row where
    "r = cohort_row now (key, ((cm, n), retained), size_row)"
    "(((cm, n), retained), size_row)
       \<in> set (left_merge (\<lambda>((cm, n), retained). cm) fst counts (cohort_sizes counts))"
proof -
  let ?M = "left_merge (\<lambda>((cm, n), retained). cm) fst counts (cohort_sizes counts)"
  from assms obtain kr where kr: "kr \<in> set (with_key ?M)" and r: "r = cohort_row now kr"
    by (auto simp: cohort_rows_def)
  obtain key cm n retained size_row where e: "kr = (key, ((cm, n), retained), size_row)"
    by (metis surj_pair)
  from kr have "(((cm, n), retained), size_row) \<in> set ?M"
    unfolding e by (rule with_key_mem_snd)
  with r e that show thesis by simp
qed

text \<open>The row at month 0 of a cohort: its cohort size is its own count, and its rate
  is 100.\<close>

lemma round2_100: "round2 100 = 100"
proof -
  have "rint 10000 = 10000" by (simp add: rint_def Let_def)
  then show ?thesis by (simp add: round2_def)
qed

lemma cohort_rows_month_0:
  assumes "distinct (map fst counts)"
    and "\<And>k c. (k, c) \<in> set counts \<Longrightarrow> 1 \<le> c"
    and "r \<in> set (cohort_rows now counts)"
    and "cr_months_since_first_purchase r = 0"
  shows "cr_cohort_size r = Some (cr_retained_customers r) \<and> cr_retention_rate r = Some 100"
proof -
  from assms(3) obtain key cm n retained size_row where
    r: "r = cohort_row now (key, ((cm, n), retained), size_row)" and
    m: "(((cm, n), retained), size_row)
       \<in> set (left_merge (\<lambda>((cm, n), retained). cm) fst counts (cohort_sizes counts))"
    by (rule cohort_rows_mem)
  from assms(4) have n: "n = 0" by (simp add: r cohort_row_fields)
  from m have c: "((cm, 0), retained) \<in> set counts" by (simp add: left_merge_mem n)
  then have "(cm, retained) \<in> set (cohort_sizes counts)" by (simp add: cohort_sizes_mem)
  then have "cm \<in> fst ` set (cohort_sizes counts)" by force
  with m obtain x where x: "size_row = Some x" "x \<in> set (cohort_sizes counts)" "fst x = cm"
    by (cases size_row) (auto simp: left_merge_mem)
  obtain cm' s where xs: "x = (cm', s)" by (cases x)
  with x have "((cm, 0), s) \<in> set counts" by (simp add: cohort_sizes_mem)
  from eq_key_imp_eq_value [OF assms(1) this c] have s: "s = retained" .
  from assms(2) [OF c] have "retained \<noteq> 0" by simp
  then have "round2 ((of_int retained :: rat) / of_int retained * 100) = 100"
    by (simp add: round2_100)
  then show ?thesis
    by (simp only: r cohort_row_fields x xs s option.map snd_conv)
qed

lemma valid_purchase_timestampsD:
  assumes "valid_purchase_timestamps orders" "od \<in> set orders"
    "o_order_purchase_timestamp od = Some t"
  shows "valid_timestamp t"
proof -
  from assms(1,2) have "case o_order_purchase_timestamp od of None \<Rightarrow> True
                        | Some ts \<Rightarrow> valid_timestamp ts"
    by (simp add: valid_purchase_timestamps_def list_all_iff)
  with assms(3) show ?thesis by simp
qed

lemma customer_timestamps_mem:
  "Some t \<in> set (customer_timestamps orders cid) \<longleftrightarrow>
     (\<exists>od\<in>set orders. o_customer_id od = cid \<and> o_order_purchase_timestamp od = Some t)"
  by (auto simp: customer_timestamps_def image_iff)

lemma distinct_count_1:
  assumes "distinct xs" "x \<in> set xs"
  shows "length (filter (\<lambda>k. k = x) xs) = 1"
proof -
  have "{k. k = x} \<inter> set xs = {x}" using assms(2) by auto
  then show ?thesis by (simp add: distinct_length_filter [OF assms(1)])
qed

text \<open>The rows that are grouped, when the cohort months come from the customer dimension
  built on the same orders: no order lies before its customer's cohort month, and the
  customer's first order lies in it.\<close>

lemma cohort_analysis_rows:
  assumes v: "valid_purchase_timestamps orders"
    and t: "those (map months_since_first_purchase
              (cohort_analysis (build_dim_customers cfg now1 now2 customers orders items) orders))
            = Some rows"
    and r: "(cm, n, cid) \<in> set rows"
  shows "0 \<le> n" and "\<exists>cid'. (cm, 0, cid') \<in> set rows"
proof -
  let ?dimc = "build_dim_customers cfg now1 now2 customers orders items"
  let ?A = "cohort_analysis ?dimc orders"
  from those_Some [OF t] have ms: "map months_since_first_purchase ?A = map Some rows" .
  then have s: "months_since_first_purchase ` set ?A = Some ` set rows"
    by (metis set_map)
  from r have "Some (cm, n, cid) \<in> Some ` set rows" by (rule imageI)
  with s obtain a where a: "a \<in> set ?A" "months_since_first_purchase a = Some (cm, n, cid)"
    by (metis (no_types, lifting) imageE)
  obtain c0 m0 cid0 where a0: "a = (c0, m0, cid0)" by (cases a) auto
  from a(2) obtain c m where cm: "c0 = Some c" "m0 = Some m" "cm = period_to_timestamp c"
     "n = m - c" "cid = cid0"
    by (auto simp: a0 months_since_first_purchase_def split: option.splits)
  from a(1) obtain od cr where od: "od \<in> set orders" and cr: "cr \<in> set ?dimc"
    and e: "dc_customer_id cr = o_customer_id od" "cid0 = o_customer_id od"
       "m0 = map_option to_period_M (o_order_purchase_timestamp od)"
       "c0 = map_option to_period_M (dc_first_order_date cr)"
    unfolding a0 cohort_analysis_mem by blast
  from e(3) cm(2) obtain ts where ts: "o_order_purchase_timestamp od = Some ts" "m = to_period_M ts"
    by (cases "o_order_purchase_timestamp od") auto
  from e(4) cm(1) obtain f where f: "dc_first_order_date cr = Some f" "c = to_period_M f"
    by (cases "dc_first_order_date cr") auto
  have "dc_customer_id cr \<in> o_customer_id ` set orders"
    using od e(1) by (simp add: image_iff) blast
  from dim_customer_first_order_date [OF cr this] f(1)
  have mn: "agg_min (customer_timestamps orders (dc_customer_id cr)) = Some f" by simp
  have "Some ts \<in> set (customer_timestamps orders (dc_customer_id cr))"
    using od e(1) ts(1) by (auto simp: customer_timestamps_mem)
  from agg_min_Some(2) [OF mn this] have le: "f \<le> ts" .
  from agg_min_Some(1) [OF mn] obtain od' where od': "od' \<in> set orders"
    "o_customer_id od' = dc_customer_id cr" "o_order_purchase_timestamp od' = Some f"
    by (auto simp: customer_timestamps_mem)
  have vf: "valid_timestamp f" by (rule valid_purchase_timestampsD [OF v od'(1) od'(3)])
  have vt: "valid_timestamp ts" by (rule valid_purchase_timestampsD [OF v od ts(1)])
  from to_period_M_mono [OF vf vt le] show "0 \<le> n" by (simp add: cm(4) ts(2) f(2))
  have "(map_option to_period_M (dc_first_order_date cr),
         map_option to_period_M (o_order_purchase_timestamp od'), o_customer_id od') \<in> set ?A"
    unfolding cohort_analysis_mem
    by (rule bexI [OF _ od'(1)], rule bexI [OF _ cr]) (simp add: od'(2))
  then have a': "(Some c, Some c, o_customer_id od') \<in> set ?A"
    by (simp add: f od'(3))
  then have "months_since_first_purchase (Some c, Some c, o_customer_id od')
             \<in> months_since_first_purchase ` set ?A" by (rule imageI)
  moreover have "months_since_first_purchase (Some c, Some c, o_customer_id od')
                 = Some (cm, 0, o_customer_id od')"
    by (simp add: months_since_first_purchase_def cm(3))
  ultimately have "Some (cm, 0, o_customer_id od') \<in> Some ` set rows"
    by (simp only: s)
  then have "(cm, 0, o_customer_id od') \<in> set rows" by auto
  then show "\<exists>cid'. (cm, 0, cid') \<in> set rows" ..
qed

text \<open>The table the builder returns, when the cohort months are those of the customer
  dimension built on the same orders.\<close>

lemma cohort_retention_table:
  assumes "valid_purchase_timestamps orders"
    and "build_cohort_retention now
           (build_dim_customers cfg now1 now2 customers orders items) orders = Inr tbl"
  shows "(\<forall>r\<in>set tbl. 0 \<le> cr_months_since_first_purchase r)
       \<and> (\<forall>r\<in>set tbl.
            length (filter (\<lambda>x. cr_cohort_month x = cr_cohort_month r
                             \<and> cr_months_since_first_purchase x = 0) tbl) = 1)
       \<and> (\<forall>r\<in>set tbl. cr_months_since_first_purchase r = 0 \<longrightarrow>
            cr_cohort_size r = Some (cr_retained_customers r)
            \<and> cr_retention_rate r = Some 100)"
proof -
  let ?dimc = "build_dim_customers cfg now1 now2 customers orders items"
  let ?key = "\<lambda>r. (cr_cohort_month r, cr_months_since_first_purchase r)"
  from assms(2) obtain rows where
    t: "those (map months_since_first_purchase (cohort_analysis ?dimc orders)) = Some rows"
    and tbl: "tbl = cohort_rows now (cohort_counts rows)"
    by (auto simp: build_cohort_retention_def split: option.splits)
  note rows = cohort_analysis_rows [OF assms(1) t]
  let ?counts = "cohort_counts rows"
  have d: "distinct (map fst ?counts)" by (rule cohort_counts_distinct)
  have K: "map ?key tbl = map fst ?counts"
    unfolding tbl by (rule cohort_rows_keys [OF d])
  have Kd: "distinct (map ?key tbl)" by (simp only: K d)
  have Ks: "set (map ?key tbl) = (\<lambda>(cm, n, cid). (cm, n)) ` set rows"
    by (simp only: K cohort_counts_key_set)
  have in_rows: "\<exists>cid. (cr_cohort_month r, cr_months_since_first_purchase r, cid) \<in> set rows"
    if "r \<in> set tbl" for r
  proof -
    from that have "?key r \<in> set (map ?key tbl)" by simp
    then have "?key r \<in> (\<lambda>(cm, n, cid). (cm, n)) ` set rows" by (simp only: Ks)
    then obtain x where x: "x \<in> set rows" "?key r = (\<lambda>(cm, n, cid). (cm, n)) x" by blast
    obtain cm n cid where e: "x = (cm, n, cid)" by (cases x) auto
    from x show ?thesis by (auto simp: e)
  qed
  have a: "\<forall>r\<in>set tbl. 0 \<le> cr_months_since_first_purchase r"
  proof
    fix r assume "r \<in> set tbl"
    from in_rows [OF this] obtain cid where
      "(cr_cohort_month r, cr_months_since_first_purchase r, cid) \<in> set rows" ..
    then show "0 \<le> cr_months_since_first_purchase r" by (rule rows(1))
  qed
  have b: "\<forall>r\<in>set tbl.
            length (filter (\<lambda>x. cr_cohort_month x = cr_cohort_month r
                             \<and> cr_months_since_first_purchase x = 0) tbl) = 1"
  proof
    fix r assume "r \<in> set tbl"
    from in_rows [OF this] obtain cid where
      "(cr_cohort_month r, cr_months_since_first_purchase r, cid) \<in> set rows" ..
    from rows(2) [OF this] obtain cid' where "(cr_cohort_month r, 0, cid') \<in> set rows" ..
    then have "(\<lambda>(cm, n, cid). (cm, n)) (cr_cohort_month r, 0, cid')
               \<in> (\<lambda>(cm, n, cid). (cm, n)) ` set rows" by (rule imageI)
    then have m: "(cr_cohort_month r, 0) \<in> set (map ?key tbl)" by (simp only: Ks) simp
    have "length (filter (\<lambda>x. cr_cohort_month x = cr_cohort_month r
                             \<and> cr_months_since_first_purchase x = 0) tbl)
          = length (filter (\<lambda>k. k = (cr_cohort_month r, 0)) (map ?key tbl))"
      by (simp add: filter_map comp_def)
    also have "\<dots> = 1" by (rule distinct_count_1 [OF Kd m])
    finally show "length (filter (\<lambda>x. cr_cohort_month x = cr_cohort_month r
                             \<and> cr_months_since_first_purchase x = 0) tbl) = 1" .
  qed
  have c: "\<forall>r\<in>set tbl. cr_months_since_first_purchase r = 0 \<longrightarrow>
            cr_cohort_size r = Some (cr_retained_customers r)
            \<and> cr_retention_rate r = Some 100"
  proof (intro ballI impI)
    fix r assume "r \<in> set tbl" and "cr_months_since_first_purchase r = 0"
    then show "cr_cohort_size r = Some (cr_retained_customers r)
            \<and> cr_retention_rate r = Some 100"
      unfolding tbl by (intro cohort_rows_month_0 [OF d]) (rule cohort_counts_pos)
  qed
  from a b c show ?thesis by blast
qed

lemma those_total:
  assumes "\<forall>a\<in>set xs. f a \<noteq> None"
  shows "\<exists>ys. those (map f xs) = Some ys"
  using assms by (induction xs) auto

text \<open>The builder returns a table when every order has a purchase timestamp.\<close>

lemma cohort_retention_returns:
  assumes "\<forall>od\<in>set orders. o_order_purchase_timestamp od \<noteq> None"
  shows "\<exists>tbl. build_cohort_retention now
           (build_dim_customers cfg now1 now2 customers orders items) orders = Inr tbl"
proof -
  let ?dimc = "build_dim_customers cfg now1 now2 customers orders items"
  let ?A = "cohort_analysis ?dimc orders"
  have "\<exists>x. months_since_first_purchase a = Some x" if "a \<in> set ?A" for a
  proof -
    obtain c0 m0 cid0 where a0: "a = (c0, m0, cid0)" by (cases a) auto
    from that obtain od cr where od: "od \<in> set orders" and cr: "cr \<in> set ?dimc"
      and e: "dc_customer_id cr = o_customer_id od"
       "m0 = map_option to_period_M (o_order_purchase_timestamp od)"
       "c0 = map_option to_period_M (dc_first_order_date cr)"
      unfolding a0 cohort_analysis_mem by blast
    from assms od obtain ts where ts: "o_order_purchase_timestamp od = Some ts" by auto
    have "dc_customer_id cr \<in> o_customer_id ` set orders"
      using od e(1) by (simp add: image_iff) blast
    from dim_customer_first_order_date [OF cr this]
    have f: "dc_first_order_date cr = agg_min (customer_timestamps orders (dc_customer_id cr))" .
    have "Some ts \<in> set (customer_timestamps orders (dc_customer_id cr))"
      using od e(1) ts by (auto simp: customer_timestamps_mem)
    then have "dc_first_order_date cr \<noteq> None"
      unfolding f agg_min_None by blast
    then obtain fo where "dc_first_order_date cr = Some fo" by auto
    with ts e show ?thesis by (simp add: a0 months_since_first_purchase_def)
  qed
  then have "\<forall>a\<in>set ?A. months_since_first_purchase a \<noteq> None" by auto
  from those_total [OF this] obtain rows where
    "those (map months_since_first_purchase ?A) = Some rows" ..
  then show ?thesis by (simp add: build_cohort_retention_def)
qed

text \<open>
  C7. The cohort months are those of the customer dimension built on the same orders,
  whose purchase timestamps are calendar timestamps. The builder returns a table when
  every order has a purchase timestamp; in every table it returns,
  \<open>months_since_first_purchase \<ge> 0\<close> on every row; for every cohort month present there
  is exactly one row at month 0; and at month 0 \<open>cohort_size\<close> is the row's own
  \<open>retained_customers\<close> and \<open>retention_rate\<close> is 100.
\<close>

theorem cohort_retention_month_0:
  assumes "valid_purchase_timestamps orders"
  shows "((\<forall>od\<in>set orders. o_order_purchase_timestamp od \<noteq> None) \<longrightarrow>
            (\<exists>tbl. build_cohort_retention now
                     (build_dim_customers cfg now1 now2 customers orders items) orders = Inr tbl))
       \<and> (\<forall>tbl. build_cohort_retention now
                   (build_dim_customers cfg now1 now2 customers orders items) orders = Inr tbl \<longrightarrow>
            (\<forall>r\<in>set tbl. 0 \<le> cr_months_since_first_purchase r)
            \<and> (\<forall>r\<in>set tbl.
                 length (filter (\<lambda>x. cr_cohort_month x = cr_cohort_month r
                                  \<and> cr_months_since_first_purchase x = 0) tbl) = 1)
            \<and> (\<forall>r\<in>set tbl. cr_months_since_first_purchase r = 0 \<longrightarrow>
                 cr_cohort_size r = Some (cr_retained_customers r)
                 \<and> cr_retention_rate r = Some 100))"
proof (intro conjI impI allI)
  assume "\<forall>od\<in>set orders. o_order_purchase_timestamp od \<noteq> None"
  then show "\<exists>tbl. build_cohort_retention now
                     (build_dim_customers cfg now1 now2 customers orders items) orders = Inr tbl"
    by (rule cohort_retention_returns)
next
  fix tbl
  assume b: "build_cohort_retention now
               (build_dim_customers cfg now1 now2 customers orders items) orders = Inr tbl"
  note t = cohort_retention_table [OF assms b]
  from t show "\<forall>r\<in>set tbl. 0 \<le> cr_months_since_first_purchase r" by (rule conjunct1)
  from t show "\<forall>r\<in>set tbl.
                 length (filter (\<lambda>x. cr_cohort_month x = cr_cohort_month r
                                  \<and> cr_months_since_first_purchase x = 0) tbl) = 1"
    by (rule conjunct1 [OF conjunct2])
  from t show "\<forall>r\<in>set tbl. cr_months_since_first_purchase r = 0 \<longrightarrow>
                 cr_cohort_size r = Some (cr_retained_customers r)
                 \<and> cr_retention_rate r = Some 100"
    by (rule conjunct2 [OF conjunct2])
qed

theorem cohort_retention_month_0_witness:
  "valid_purchase_timestamps cohort_orders
   \<and> (\<exists>od\<in>set cohort_orders. o_order_purchase_timestamp od \<noteq> None)
   \<and> build_cohort_retention example_now cohort_dim_customers cohort_orders = Inr cohort_table
   \<and> cohort_table ! 0 \<in> set cohort_table
   \<and> map cr_months_since_first_purchase cohort_table = [0, 1]
   \<and> map cr_retention_rate cohort_table = [Some 100, Some 50]
   \<and> 0 \<le> cr_months_since_first_purchase (cohort_table ! 0)
   \<and> length (filter (\<lambda>x. cr_cohort_month x = cr_cohort_month (cohort_table ! 0)
                         \<and> cr_months_since_first_purchase x = 0) cohort_table) = 1
   \<and> cr_cohort_size (cohort_table ! 0) = Some (cr_retained_customers (cohort_table ! 0))
   \<and> cr_retention_rate (cohort_table ! 0) = Some 100"
proof -
  have v: "valid_purchase_timestamps cohort_orders" by code_simp
  have n: "\<forall>od\<in>set cohort_orders. o_order_purchase_timestamp od \<noteq> None"
    by (simp add: cohort_orders_def)
  then have n': "\<exists>od\<in>set cohort_orders. o_order_purchase_timestamp od \<noteq> None"
    by (simp add: cohort_orders_def)
  note inst = cohort_retention_month_0 [OF v, of example_now example_rules example_now
                 example_now cohort_customers "[]"]
  from inst n obtain tbl where
    "build_cohort_retention example_now
       (build_dim_customers example_rules example_now example_now cohort_customers
          cohort_orders []) cohort_orders = Inr tbl"
    by blast
  then have b: "build_cohort_retention example_now cohort_dim_customers cohort_orders
                = Inr cohort_table"
    by (simp add: cohort_table_def cohort_dim_customers_def)
  have len: "0 < length cohort_table" by code_simp
  have m: "cohort_table ! 0 \<in> set cohort_table" by (rule nth_mem [OF len])
  have ms: "map cr_months_since_first_purchase cohort_table = [0, 1]" by code_simp
  have rs: "map cr_retention_rate cohort_table = [Some 100, Some 50]" by code_simp
  have z: "cr_months_since_first_purchase (cohort_table ! 0) = 0" by code_simp
  from inst b [unfolded cohort_dim_customers_def] m z
  have "0 \<le> cr_months_since_first_purchase (cohort_table ! 0)"
    "length (filter (\<lambda>x. cr_cohort_month x = cr_cohort_month (cohort_table ! 0)
                         \<and> cr_months_since_first_purchase x = 0) cohort_table) = 1"
    "cr_cohort_size (cohort_table ! 0) = Some (cr_retained_customers (cohort_table ! 0))"
    "cr_retention_rate (cohort_table ! 0) = Some 100"
    by blast+
  with v n' b m ms rs show ?thesis by blast
qed

section \<open>Properties of the orchestrator\<close>










lemma add_date_str_clock:
  "add_date_str (dim_date_of (drop_dimension_timestamps dims))
     = dim_date_of (drop_dimension_timestamps
                      (dims\<lparr> dim_date_of := add_date_str (dim_date_of dims) \<rparr>))"
  by (simp add: add_date_str_def drop_dimension_timestamps_def comp_def)









end
